theory Spec2Isabelle
  imports Complex_Main "HOL-Library.Multiset"
begin

section \<open>Values of the JavaScript runtime\<close>

text \<open>
  The proxy works on untyped JSON objects. An optional field is an \<open>option\<close>; the idiom
  \<^verbatim>\<open>x || d\<close> takes the default for an absent field and for a falsy one (the empty
  string, 0, false, null). A string is the sequence of its UTF-8 bytes, so an ASCII
  character is one \<open>char\<close> and a substring test on ASCII text is the runtime's;
  \<^verbatim>\<open>trim\<close> is modelled on ASCII white space.
\<close>

datatype json =
    JNull
  | JBool bool
  | JNum rat
  | JStr string
  | JArr "json list"
  | JObj "(string \<times> json) list"

fun json_truthy :: "json \<Rightarrow> bool" where
  "json_truthy JNull = False"
| "json_truthy (JBool b) = b"
| "json_truthy (JNum n) = (n \<noteq> 0)"
| "json_truthy (JStr s) = (s \<noteq> [])"
| "json_truthy (JArr xs) = True"
| "json_truthy (JObj kvs) = True"

text \<open>\<^verbatim>\<open>JSON.stringify\<close>, \<^verbatim>\<open>JSON.parse\<close> and
  \<^verbatim>\<open>String.prototype.toLowerCase\<close> belong to the runtime, not to the proxy: the
  functions that call them take them as a parameter. \<open>JSON_parse\<close> returns \<open>None\<close>
  where the runtime throws a SyntaxError.\<close>

record runtime =
  JSON_stringify :: "json \<Rightarrow> string"
  JSON_parse :: "string \<Rightarrow> json option"
  toLowerCase :: "string \<Rightarrow> string"

definition str_truthy :: "string option \<Rightarrow> bool" where
  "str_truthy v = (case v of None \<Rightarrow> False | Some s \<Rightarrow> s \<noteq> [])"

text \<open>\<^verbatim>\<open>v || d\<close> on an optional string.\<close>

definition str_or :: "string option \<Rightarrow> string \<Rightarrow> string" where
  "str_or v d = (case v of None \<Rightarrow> d | Some s \<Rightarrow> if s = [] then d else s)"

text \<open>\<^verbatim>\<open>v || d\<close> on an optional JSON value.\<close>

definition json_or :: "json option \<Rightarrow> json \<Rightarrow> json" where
  "json_or v d = (case v of None \<Rightarrow> d | Some j \<Rightarrow> if json_truthy j then j else d)"

text \<open>\<^verbatim>\<open>v || d\<close> on an optional number.\<close>

definition num_or :: "int option \<Rightarrow> int \<Rightarrow> int" where
  "num_or v d = (case v of None \<Rightarrow> d | Some n \<Rightarrow> if n = 0 then d else n)"

text \<open>The letters of ASCII, each upper-case letter with its lower-case form.\<close>

definition letters :: "(char \<times> char) list" where
  "letters = zip ''ABCDEFGHIJKLMNOPQRSTUVWXYZ'' ''abcdefghijklmnopqrstuvwxyz''"

definition lower_char :: "char \<Rightarrow> char" where
  "lower_char c = (case map_of letters c of None \<Rightarrow> c | Some l \<Rightarrow> l)"

definition is_ascii :: "string \<Rightarrow> bool" where
  "is_ascii s = list_all (\<lambda>c. \<not> digit7 c) s"

text \<open>What is known of the runtime's \<^verbatim>\<open>toLowerCase\<close> on ASCII text: it turns the
  letters A to Z into a to z and leaves every other character.\<close>

definition lowers_ascii :: "runtime \<Rightarrow> bool" where
  "lowers_ascii rt = (\<forall>s. is_ascii s \<longrightarrow> toLowerCase rt s = map lower_char s)"

fun startsWith :: "string \<Rightarrow> string \<Rightarrow> bool" where
  "startsWith s [] = True"
| "startsWith [] (p # ps) = False"
| "startsWith (c # s) (p # ps) = (c = p \<and> startsWith s ps)"

text \<open>\<^verbatim>\<open>s.includes(p)\<close>: \<open>p\<close> occurs in
  \<open>s\<close> as a contiguous substring.\<close>

fun str_includes :: "string \<Rightarrow> string \<Rightarrow> bool" where
  "str_includes [] p = (p = [])"
| "str_includes (c # s) p = (startsWith (c # s) p \<or> str_includes s p)"

fun join :: "string \<Rightarrow> string list \<Rightarrow> string" where
  "join sep [] = []"
| "join sep [x] = x"
| "join sep (x # y # ys) = x @ sep @ join sep (y # ys)"

definition is_space :: "char \<Rightarrow> bool" where
  "is_space c = (c \<in> set [CHR 0x09, CHR 0x0A, CHR 0x0B, CHR 0x0C, CHR 0x0D, CHR 0x20])"

definition trim :: "string \<Rightarrow> string" where
  "trim s = rev (dropWhile is_space (rev (dropWhile is_space s)))"

section \<open>Configuration and endpoint resolution\<close>

record deployments =
  opus :: "string option"
  sonnet :: "string option"
  haiku :: "string option"

datatype effort = Low | Medium | High | Extra_high

record AzureConfig =
  endpoint :: string
  apiKey :: string
  apiVersion :: string
  deployments :: deployments
  router :: "string option"
  reasoningEffort :: "effort option"
  reasoningModel :: "string option"

definition isResponsesApiVersion :: "string \<Rightarrow> bool" where
  "isResponsesApiVersion v = (startsWith v ''2025-04-01'' \<or> startsWith v ''2024-08-01'')"

definition shouldUseResponsesAPI :: "AzureConfig \<Rightarrow> bool" where
  "shouldUseResponsesAPI config =
     (str_truthy (router config) \<or> isResponsesApiVersion (apiVersion config))"

definition getDeployment :: "runtime \<Rightarrow> string \<Rightarrow> AzureConfig \<Rightarrow> string" where
  "getDeployment rt model config =
     (if str_truthy (router config) then the (router config)
      else let lower = toLowerCase rt model in
        if str_includes lower ''opus'' then str_or (opus (deployments config)) ''gpt-4o''
        else if str_includes lower ''haiku'' then str_or (haiku (deployments config)) ''gpt-4o-mini''
        else str_or (sonnet (deployments config)) ''gpt-4o'')"

definition getModelName :: "runtime \<Rightarrow> string \<Rightarrow> AzureConfig \<Rightarrow> string" where
  "getModelName rt model config =
     (if str_truthy (router config) then the (router config)
      else getDeployment rt model config)"

text \<open>A request target: the host of the configured endpoint and the path with its query.
  The host is kept as the configured endpoint (the \<^verbatim>\<open>URL\<close> class is not modelled).\<close>

record options =
  hostname :: string
  path :: string

definition responses_url :: "AzureConfig \<Rightarrow> string \<Rightarrow> options" where
  "responses_url azure version =
     \<lparr>hostname = endpoint azure, path = ''/openai/responses?api-version='' @ version\<rparr>"

definition deployment_responses_url :: "AzureConfig \<Rightarrow> string \<Rightarrow> string \<Rightarrow> options" where
  "deployment_responses_url azure deployment version =
     \<lparr>hostname = endpoint azure,
      path = ''/openai/deployments/'' @ deployment @ ''/responses?api-version='' @ version\<rparr>"

definition chat_completions_url :: "AzureConfig \<Rightarrow> string \<Rightarrow> options" where
  "chat_completions_url azure deployment =
     \<lparr>hostname = endpoint azure,
      path = ''/openai/deployments/'' @ deployment @ ''/chat/completions?api-version=''
               @ apiVersion azure\<rparr>"

text \<open>The loop of \<^verbatim>\<open>buildResponsesUrls\<close> over the versions,
  with the set \<open>seen\<close>.\<close>

fun buildResponsesUrls_loop ::
  "AzureConfig \<Rightarrow> string \<Rightarrow> string list \<Rightarrow> string list \<Rightarrow> options list" where
  "buildResponsesUrls_loop azure deployment [] seen = []"
| "buildResponsesUrls_loop azure deployment (version # versions) seen =
     (if version = [] \<or> version \<in> set seen
      then buildResponsesUrls_loop azure deployment versions seen
      else (if str_truthy (router azure) then [responses_url azure version] else [])
           @ [deployment_responses_url azure deployment version]
           @ buildResponsesUrls_loop azure deployment versions (version # seen))"

definition buildResponsesUrls :: "AzureConfig \<Rightarrow> string \<Rightarrow> options list" where
  "buildResponsesUrls azure deployment =
     buildResponsesUrls_loop azure deployment [apiVersion azure, ''2025-04-01-preview''] []"

section \<open>The client's conversation\<close>

record image_source =
  src_type :: "string option"
  src_media_type :: "string option"
  src_data :: "string option"

text \<open>The content of a tool result: a string, an array of strings and of objects with an
  optional \<^verbatim>\<open>text\<close>, or any other value.\<close>

datatype result_item = ItemString string | ItemObject "string option"

datatype result_content =
    ContentString string
  | ContentArray "result_item list"
  | ContentOther json

record block =
  b_type :: "string option"
  b_text :: "string option"
  b_source :: "image_source option"
  b_id :: "string option"
  b_name :: "string option"
  b_input :: "json option"
  b_tool_use_id :: "string option"
  b_content :: "result_content option"
  b_is_error :: "bool option"

datatype msg_content = StringContent string | ArrayContent "block list" | OtherContent

record message =
  m_role :: "string option"
  m_content :: msg_content

datatype system_prompt = SystemString string | SystemBlocks "block list"

definition blockType :: "block \<Rightarrow> string" where
  "blockType b = str_or (b_type b) ''''"

definition is_tool_block :: "block \<Rightarrow> bool" where
  "is_tool_block b = (blockType b = ''tool_use'' \<or> blockType b = ''tool_result'')"

fun message_has_tool :: "message \<Rightarrow> bool" where
  "message_has_tool msg =
     (case m_content msg of
        ArrayContent content \<Rightarrow> list_ex is_tool_block content
      | _ \<Rightarrow> False)"

definition hasToolUsage :: "message list \<Rightarrow> bool" where
  "hasToolUsage messages = list_ex message_has_tool messages"

section \<open>Forward translation: client request to backend request\<close>

datatype part =
    TextPart (part_type: string) (part_text: string)
  | ImagePart (part_type: string) (part_image_url: string)

datatype out_content = OutNull | OutString string | OutParts "part list"

record fn_call =
  fn_name :: "string option"
  fn_arguments :: "string option"

text \<open>A tool call of the backend's chat shape (its \<^verbatim>\<open>type\<close> is always
  \<^verbatim>\<open>function\<close>).\<close>

record tool_call =
  tc_id :: "string option"
  tc_function :: "fn_call option"

record out_message =
  o_role :: string
  o_content :: out_content
  o_tool_calls :: "tool_call list option"
  o_tool_call_id :: "string option"

definition plain_message :: "string \<Rightarrow> out_content \<Rightarrow> out_message" where
  "plain_message role content =
     \<lparr>o_role = role, o_content = content, o_tool_calls = None, o_tool_call_id = None\<rparr>"

definition textType :: "bool \<Rightarrow> string \<Rightarrow> string" where
  "textType useResponsesAPI role =
     (if useResponsesAPI then (if role = ''assistant'' then ''output_text'' else ''input_text'')
      else ''text'')"

definition textParts :: "bool \<Rightarrow> string \<Rightarrow> block list \<Rightarrow> part list" where
  "textParts useResponsesAPI role content =
     map (\<lambda>b. TextPart (textType useResponsesAPI role) (str_or (b_text b) []))
       (filter (\<lambda>b. blockType b = ''text'') content)"

definition image_part :: "bool \<Rightarrow> block \<Rightarrow> part list" where
  "image_part useResponsesAPI b =
     (case b_source b of
        None \<Rightarrow> []
      | Some source \<Rightarrow>
          if src_type source = Some ''base64''
          then [ImagePart (if useResponsesAPI then ''input_image'' else ''image_url'')
                  (''data:'' @ str_or (src_media_type source) ''image/png'' @ '';base64,''
                     @ str_or (src_data source) [])]
          else [])"

definition imageParts :: "bool \<Rightarrow> block list \<Rightarrow> part list" where
  "imageParts useResponsesAPI content =
     concat (map (image_part useResponsesAPI) (filter (\<lambda>b. blockType b = ''image'') content))"

definition toolUseBlocks :: "block list \<Rightarrow> block list" where
  "toolUseBlocks content = filter (\<lambda>b. blockType b = ''tool_use'') content"

definition toolResultBlocks :: "block list \<Rightarrow> block list" where
  "toolResultBlocks content = filter (\<lambda>b. blockType b = ''tool_result'') content"

text \<open>The tool call the chat shape carries for a \<^verbatim>\<open>tool_use\<close>
  block.\<close>

definition toolCall :: "runtime \<Rightarrow> block \<Rightarrow> tool_call" where
  "toolCall rt tb =
     \<lparr>tc_id = Some (str_or (b_id tb) []),
      tc_function = Some
        \<lparr>fn_name = Some (str_or (b_name tb) []),
         fn_arguments = Some (JSON_stringify rt (json_or (b_input tb) (JObj [])))\<rparr>\<rparr>"

text \<open>The placeholder the alternate shape carries for a \<^verbatim>\<open>tool_use\<close> block; an absent
  field prints as \<^verbatim>\<open>undefined\<close> in the template string.\<close>

definition toolText :: "runtime \<Rightarrow> block \<Rightarrow> string" where
  "toolText rt tb =
     ''[Tool: '' @ (case b_name tb of None \<Rightarrow> ''undefined'' | Some n \<Rightarrow> n)
       @ '', Input: ''
       @ (case b_input tb of None \<Rightarrow> ''undefined'' | Some j \<Rightarrow> JSON_stringify rt j)
       @ '']''"

definition item_text :: "result_item \<Rightarrow> string" where
  "item_text item = (case item of ItemString s \<Rightarrow> s | ItemObject t \<Rightarrow> str_or t [])"

definition resultContent :: "runtime \<Rightarrow> block \<Rightarrow> string" where
  "resultContent rt result =
     (case b_content result of
        None \<Rightarrow> []
      | Some (ContentString s) \<Rightarrow> s
      | Some (ContentArray items) \<Rightarrow> join [CHR 0x0A] (map item_text items)
      | Some (ContentOther j) \<Rightarrow> if json_truthy j then JSON_stringify rt j else [])"

definition isError :: "block \<Rightarrow> bool" where
  "isError result = (case b_is_error result of None \<Rightarrow> False | Some e \<Rightarrow> e)"

definition toolResultText :: "runtime \<Rightarrow> block \<Rightarrow> string" where
  "toolResultText rt result =
     ''[Tool Result: '' @ (if isError result then ''Error: '' else [])
       @ resultContent rt result @ '']''"

definition toolMessage :: "runtime \<Rightarrow> block \<Rightarrow> out_message" where
  "toolMessage rt result =
     \<lparr>o_role = ''tool'',
      o_content = OutString
        (if isError result then ''Error: '' @ resultContent rt result
         else resultContent rt result),
      o_tool_calls = None,
      o_tool_call_id = Some (str_or (b_tool_use_id result) [])\<rparr>"

definition convertMessage :: "runtime \<Rightarrow> bool \<Rightarrow> message \<Rightarrow> out_message list" where
  "convertMessage rt useResponsesAPI msg =
     (let role = str_or (m_role msg) ''user'' in
      case m_content msg of
        StringContent content \<Rightarrow> [plain_message role (OutString content)]
      | OtherContent \<Rightarrow> []
      | ArrayContent content \<Rightarrow>
          (let tps = textParts useResponsesAPI role content;
               ips = imageParts useResponsesAPI content;
               tus = toolUseBlocks content;
               trs = toolResultBlocks content;
               textContent = trim (join '' '' (map part_text tps))
           in
           if role = ''assistant'' \<and> tus \<noteq> [] then
             (if useResponsesAPI then
                [plain_message ''assistant''
                   (OutString (join '' '' (filter (\<lambda>s. s \<noteq> [])
                      [textContent, join '' '' (map (toolText rt) tus)])))]
              else
                [\<lparr>o_role = ''assistant'',
                  o_content = (if textContent = [] then OutNull else OutString textContent),
                  o_tool_calls = Some (map (toolCall rt) tus),
                  o_tool_call_id = None\<rparr>])
           else if trs \<noteq> [] then
             (if useResponsesAPI then
                [plain_message ''user''
                   (OutString (join '' '' (filter (\<lambda>s. s \<noteq> [])
                      [textContent, join '' '' (map (toolResultText rt) trs)])))]
              else
                map (toolMessage rt) trs
                @ (if tps \<noteq> [] \<and> textContent \<noteq> []
                   then [plain_message ''user'' (OutString textContent)] else []))
           else if tps \<noteq> [] \<or> ips \<noteq> [] then
             (case tps @ ips of
                [TextPart ty t] \<Rightarrow>
                  if ty = ''text'' then [plain_message role (OutString t)]
                  else [plain_message role (OutParts (tps @ ips))]
              | combined \<Rightarrow> [plain_message role (OutParts combined)])
           else []))"

definition systemMessage :: "system_prompt option \<Rightarrow> out_message list" where
  "systemMessage system =
     (case system of
        None \<Rightarrow> []
      | Some (SystemString s) \<Rightarrow>
          if s = [] then [] else [plain_message ''system'' (OutString s)]
      | Some (SystemBlocks bs) \<Rightarrow>
          [plain_message ''system''
             (OutString (join '' '' (map (\<lambda>b. str_or (b_text b) [])
                (filter (\<lambda>b. b_type b = Some ''text'') bs))))])"

definition convertMessages ::
  "runtime \<Rightarrow> message list \<Rightarrow> system_prompt option \<Rightarrow> bool \<Rightarrow> out_message list" where
  "convertMessages rt claudeMessages system useResponsesAPI =
     systemMessage system @ concat (map (convertMessage rt useResponsesAPI) claudeMessages)"

record tool_function =
  tf_name :: "string option"
  tf_description :: "string option"
  tf_parameters :: "json option"

record tool =
  t_type :: "string option"
  t_name :: "string option"
  t_description :: "string option"
  t_input_schema :: "json option"
  t_function :: "tool_function option"

datatype out_tool =
    AsIs tool
  | FlatFunction string string json
  | NestedFunction string string json

definition empty_schema :: json where
  "empty_schema = JObj [(''type'', JStr ''object''), (''properties'', JObj [])]"

definition convertTool :: "bool \<Rightarrow> tool \<Rightarrow> out_tool" where
  "convertTool useResponsesAPI t =
     (if t_type t = Some ''function'' \<and> \<not> useResponsesAPI then AsIs t
      else if useResponsesAPI then
        FlatFunction
          (str_or (t_name t) (str_or (Option.bind (t_function t) tf_name) []))
          (str_or (t_description t) (str_or (Option.bind (t_function t) tf_description) []))
          (json_or (t_input_schema t)
             (json_or (Option.bind (t_function t) tf_parameters) empty_schema))
      else
        NestedFunction (str_or (t_name t) []) (str_or (t_description t) [])
          (json_or (t_input_schema t) empty_schema))"

definition convertTools :: "tool list \<Rightarrow> bool \<Rightarrow> out_tool list" where
  "convertTools claudeTools useResponsesAPI = map (convertTool useResponsesAPI) claudeTools"

record claude_request =
  r_model :: "string option"
  r_messages :: "message list option"
  r_system :: "system_prompt option"
  r_max_tokens :: "int option"
  r_temperature :: "rat option"
  r_tools :: "tool list option"
  r_stream :: "bool option"

text \<open>\<^verbatim>\<open>claudeReq.messages || []\<close>.\<close>

definition messagesOf :: "claude_request \<Rightarrow> message list" where
  "messagesOf claudeReq = (case r_messages claudeReq of None \<Rightarrow> [] | Some ms \<Rightarrow> ms)"

record openai_request =
  q_model :: string
  q_stream :: bool
  q_input :: "out_message list option"
  q_messages :: "out_message list option"
  q_max_output_tokens :: "int option"
  q_max_completion_tokens :: "int option"
  q_temperature :: "rat option"
  q_tools :: "out_tool list option"
  q_reasoning :: "effort option"
  q_reasoning_effort :: "effort option"

text \<open>\<^verbatim>\<open>Math.max(4096, Math.min(maxTokens, 128000))\<close>.\<close>

definition clampTokens :: "int \<Rightarrow> int" where
  "clampTokens maxTokens = max 4096 (min maxTokens 128000)"

definition null_to_empty :: "out_message \<Rightarrow> out_message" where
  "null_to_empty msg = (if o_content msg = OutNull then msg\<lparr>o_content := OutString []\<rparr> else msg)"

definition shouldApplyReasoning :: "runtime \<Rightarrow> string \<Rightarrow> AzureConfig \<Rightarrow> bool" where
  "shouldApplyReasoning rt model config =
     (let modelName = toLowerCase rt model;
          targetModel = map_option (toLowerCase rt) (reasoningModel config)
      in (str_truthy targetModel \<and> (Some modelName = targetModel \<or> str_truthy (router config)))
         \<or> (\<not> str_truthy targetModel \<and> str_includes modelName ''gpt-5''))"

definition buildOpenAIRequest ::
  "runtime \<Rightarrow> claude_request \<Rightarrow> AzureConfig \<Rightarrow> bool \<Rightarrow> openai_request" where
  "buildOpenAIRequest rt claudeReq config useResponsesAPI =
     (let maxTokens = num_or (r_max_tokens claudeReq) 64000;
          converted = convertMessages rt (messagesOf claudeReq) (r_system claudeReq)
                        useResponsesAPI;
          messages = (if useResponsesAPI then map null_to_empty converted else converted);
          model = getModelName rt (str_or (r_model claudeReq) []) config;
          apply = (reasoningEffort config \<noteq> None \<and> shouldApplyReasoning rt model config)
      in \<lparr>q_model = model,
          q_stream = (case r_stream claudeReq of None \<Rightarrow> False | Some s \<Rightarrow> s),
          q_input = (if useResponsesAPI then Some messages else None),
          q_messages = (if useResponsesAPI then None else Some messages),
          q_max_output_tokens = (if useResponsesAPI then Some (clampTokens maxTokens) else None),
          q_max_completion_tokens = (if useResponsesAPI then None else Some (clampTokens maxTokens)),
          q_temperature = r_temperature claudeReq,
          q_tools = (case r_tools claudeReq of
                       None \<Rightarrow> None
                     | Some ts \<Rightarrow> if ts = [] then None else Some (convertTools ts useResponsesAPI)),
          q_reasoning = (if apply \<and> useResponsesAPI then reasoningEffort config else None),
          q_reasoning_effort = (if apply \<and> \<not> useResponsesAPI then reasoningEffort config else None)\<rparr>)"

section \<open>Reverse translation: backend reply to client response\<close>

record reply_message =
  rm_content :: "string option"
  rm_tool_calls :: "tool_call list option"

record choice =
  ch_message :: "reply_message option"
  ch_finish_reason :: "string option"

record usage =
  u_prompt_tokens :: "int option"
  u_input_tokens :: "int option"
  u_completion_tokens :: "int option"
  u_output_tokens :: "int option"

text \<open>An entry of the alternate shape's \<^verbatim>\<open>output\<close> array, and a block of a message entry's
  content: both are read through the same fields.\<close>

datatype out_item = OutItem
  (i_type: "string option")
  (i_id: "string option")
  (i_name: "string option")
  (i_tool_name: "string option")
  (i_function: "fn_call option")
  (i_arguments: "json option")
  (i_tool_arguments: "json option")
  (i_input: "json option")
  (i_text: "string option")
  (i_content: item_content)
and item_content =
    NoItemContent
  | ItemContentString string
  | ItemContentArray "out_item list"

record openai_response =
  p_id :: "string option"
  p_choices :: "choice list option"
  p_usage :: "usage option"
  p_output_text :: "string option"
  p_output :: "out_item list option"

datatype content_block =
    Text string
  | ToolUse (tu_id: string) (tu_name: string) (tu_input: json)

text \<open>The value of \<^verbatim>\<open>stop_reason\<close>: a string, or the member of
  \<^verbatim>\<open>Object.prototype\<close> of the given name (a function or an object, never a string).\<close>

datatype stop_value = StopReason string | PrototypeMember string

record claude_response =
  cr_id :: string
  cr_content :: "content_block list"
  cr_model :: string
  cr_stop_reason :: stop_value
  cr_input_tokens :: int
  cr_output_tokens :: int

text \<open>The own properties of the object literal \<^verbatim>\<open>stopReasonMap\<close>.\<close>

definition stopReasonMap :: "(string \<times> string) list" where
  "stopReasonMap =
     [(''stop'', ''end_turn''), (''length'', ''max_tokens''),
      (''tool_calls'', ''tool_use''), (''content_filter'', ''end_turn'')]"

text \<open>The names of the properties an object literal inherits from
  \<^verbatim>\<open>Object.prototype\<close> in the runtime; the value of each is a function, or for
  \<^verbatim>\<open>__proto__\<close> the prototype object, and so truthy.\<close>

definition Object_prototype :: "string list" where
  "Object_prototype =
     [''constructor'', ''hasOwnProperty'', ''isPrototypeOf'', ''propertyIsEnumerable'',
      ''toLocaleString'', ''toString'', ''valueOf'', ''__proto__'',
      ''__defineGetter__'', ''__defineSetter__'', ''__lookupGetter__'', ''__lookupSetter__'']"

text \<open>\<^verbatim>\<open>stopReasonMap[finishReason] || 'end_turn'\<close>: the own property, else the
  inherited one, else the default.\<close>

definition lookupStopReason :: "string \<Rightarrow> stop_value" where
  "lookupStopReason finishReason =
     (case map_of stopReasonMap finishReason of
        Some r \<Rightarrow> if r = [] then StopReason ''end_turn'' else StopReason r
      | None \<Rightarrow>
          if finishReason \<in> set Object_prototype then PrototypeMember finishReason
          else StopReason ''end_turn'')"

text \<open>\<^verbatim>\<open>JSON.parse(tc.function?.arguments || '{}')\<close>, an empty
  object where it throws.\<close>

definition parseArguments :: "runtime \<Rightarrow> string option \<Rightarrow> json" where
  "parseArguments rt arguments =
     (case JSON_parse rt (str_or arguments ''{}'') of None \<Rightarrow> JObj [] | Some input \<Rightarrow> input)"

definition toolUseOfCall :: "runtime \<Rightarrow> tool_call \<Rightarrow> content_block" where
  "toolUseOfCall rt tc =
     ToolUse (str_or (tc_id tc) [])
       (str_or (Option.bind (tc_function tc) fn_name) [])
       (parseArguments rt (Option.bind (tc_function tc) fn_arguments))"

definition pushToolUse :: "runtime \<Rightarrow> string \<Rightarrow> string \<Rightarrow> json \<Rightarrow> content_block" where
  "pushToolUse rt ident name args =
     ToolUse ident name
       (case args of
          JStr s \<Rightarrow> (case JSON_parse rt s of None \<Rightarrow> JObj [] | Some input \<Rightarrow> input)
        | JObj kvs \<Rightarrow> args
        | JArr xs \<Rightarrow> args
        | _ \<Rightarrow> JObj [])"

text \<open>\<^verbatim>\<open>a || b\<close> on optional JSON values, the result still
  optional.\<close>

definition json_else :: "json option \<Rightarrow> json option \<Rightarrow> json option" where
  "json_else a b = (case a of None \<Rightarrow> b | Some j \<Rightarrow> if json_truthy j then a else b)"

definition extractToolCall :: "runtime \<Rightarrow> out_item \<Rightarrow> content_block list" where
  "extractToolCall rt item =
     (if i_type item = Some ''tool_call'' \<or> i_type item = Some ''function_call'' then
        [pushToolUse rt (str_or (i_id item) [])
           (str_or (i_name item)
              (str_or (i_tool_name item) (str_or (Option.bind (i_function item) fn_name) [])))
           (json_or
              (json_else (i_arguments item)
                 (json_else (i_tool_arguments item)
                    (map_option JStr (Option.bind (i_function item) fn_arguments))))
              (JStr ''{}''))]
      else if i_type item = Some ''tool'' \<and> str_truthy (i_name item) then
        [pushToolUse rt (str_or (i_id item) []) (str_or (i_name item) [])
           (json_or (json_else (i_arguments item) (i_input item)) (JStr ''{}''))]
      else [])"

definition block_texts :: "out_item \<Rightarrow> string list" where
  "block_texts b =
     (if i_type b = Some ''output_text'' \<or> i_type b = Some ''text''
      then [str_or (i_text b) []] else [])"

definition item_texts :: "out_item \<Rightarrow> string list" where
  "item_texts item =
     (if i_type item = Some ''message'' then
        (case i_content item of
           ItemContentString s \<Rightarrow> [s]
         | ItemContentArray bs \<Rightarrow> concat (map block_texts bs)
         | NoItemContent \<Rightarrow> [])
      else [])"

definition item_toolUses :: "runtime \<Rightarrow> out_item \<Rightarrow> content_block list" where
  "item_toolUses rt item =
     (if i_type item = Some ''message'' then
        (case i_content item of
           ItemContentArray bs \<Rightarrow> concat (map (extractToolCall rt) bs)
         | _ \<Rightarrow> [])
      else extractToolCall rt item)"

text \<open>\<open>fresh\<close> is the identifier \<^verbatim>\<open>msg_<Date.now()>\<close> the proxy makes up when the reply
  has none.\<close>

definition convertResponse ::
  "runtime \<Rightarrow> string \<Rightarrow> openai_response \<Rightarrow> string \<Rightarrow> claude_response" where
  "convertResponse rt fresh openaiRes model =
     (case p_choices openaiRes of
        Some (choice # others) \<Rightarrow>
          (let message = (case ch_message choice of
                            None \<Rightarrow> \<lparr>rm_content = None, rm_tool_calls = None\<rparr>
                          | Some m \<Rightarrow> m);
               finishReason = str_or (ch_finish_reason choice) ''stop''
           in \<lparr>cr_id = str_or (p_id openaiRes) fresh,
               cr_content =
                 (if str_truthy (rm_content message) then [Text (the (rm_content message))] else [])
                 @ (case rm_tool_calls message of
                      None \<Rightarrow> []
                    | Some tcs \<Rightarrow> map (toolUseOfCall rt) tcs),
               cr_model = model,
               cr_stop_reason = lookupStopReason finishReason,
               cr_input_tokens =
                 num_or (Option.bind (p_usage openaiRes) u_prompt_tokens)
                   (num_or (Option.bind (p_usage openaiRes) u_input_tokens) 0),
               cr_output_tokens =
                 num_or (Option.bind (p_usage openaiRes) u_completion_tokens)
                   (num_or (Option.bind (p_usage openaiRes) u_output_tokens) 0)\<rparr>)
      | _ \<Rightarrow>
          (let output = (case p_output openaiRes of None \<Rightarrow> [] | Some items \<Rightarrow> items);
               textParts = (case p_output_text openaiRes of None \<Rightarrow> [] | Some t \<Rightarrow> [t])
                           @ concat (map item_texts output);
               toolUses = concat (map (item_toolUses rt) output)
           in \<lparr>cr_id = str_or (p_id openaiRes) fresh,
               cr_content = (if textParts \<noteq> [] then [Text (concat textParts)] else []) @ toolUses,
               cr_model = model,
               cr_stop_reason = StopReason ''end_turn'',
               cr_input_tokens =
                 (case Option.bind (p_usage openaiRes) u_input_tokens of
                    Some n \<Rightarrow> n
                  | None \<Rightarrow> (case Option.bind (p_usage openaiRes) u_prompt_tokens of
                               Some n \<Rightarrow> n | None \<Rightarrow> 0)),
               cr_output_tokens =
                 (case Option.bind (p_usage openaiRes) u_output_tokens of
                    Some n \<Rightarrow> n
                  | None \<Rightarrow> (case Option.bind (p_usage openaiRes) u_completion_tokens of
                               Some n \<Rightarrow> n | None \<Rightarrow> 0))\<rparr>))"

section \<open>The dispatcher\<close>

text \<open>What \<^verbatim>\<open>requestJson\<close> gives for one candidate: the promise resolves with a status
  code and a body, or rejects with a transport error.\<close>

datatype outcome = Response nat string | TransportError string

type_synonym network = "options \<Rightarrow> openai_request \<Rightarrow> outcome"

text \<open>The payload sent to a chat-completions candidate when it was built for the alternate
  shape.\<close>

definition adaptPayload :: "options \<Rightarrow> openai_request \<Rightarrow> openai_request" where
  "adaptPayload options payload =
     (if str_includes (path options) ''/chat/completions'' \<and> q_input payload \<noteq> None then
        (let swapped = payload\<lparr>q_messages := q_input payload, q_input := None\<rparr> in
         case q_max_output_tokens payload of
           None \<Rightarrow> swapped
         | Some n \<Rightarrow>
             if n = 0 then swapped
             else swapped\<lparr>q_max_completion_tokens := Some n, q_max_output_tokens := None\<rparr>)
      else payload)"

text \<open>The loop of \<^verbatim>\<open>requestWithFallback\<close> from candidate \<open>i\<close> on. \<open>attempts\<close> are the
  candidates \<^verbatim>\<open>requestJson\<close> was called on so far; the result is the error thrown
  (\<open>Inl\<close>) or the value returned (\<open>Inr\<close>). The test \<^verbatim>\<open>i < optionsList.length - 1\<close> is
  \<open>rest \<noteq> []\<close>.\<close>

fun requestWithFallback_loop ::
  "network \<Rightarrow> openai_request \<Rightarrow> options list \<Rightarrow> string option \<Rightarrow> options list
     \<Rightarrow> options list \<times> (string + nat \<times> string \<times> options)" where
  "requestWithFallback_loop net payload [] lastError attempts =
     (attempts, Inl (case lastError of None \<Rightarrow> ''Azure request failed'' | Some e \<Rightarrow> e))"
| "requestWithFallback_loop net payload (options # rest) lastError attempts =
     (case net options (adaptPayload options payload) of
        Response statusCode body \<Rightarrow>
          if statusCode = 404 \<and> rest \<noteq> []
          then requestWithFallback_loop net payload rest lastError (attempts @ [options])
          else (attempts @ [options], Inr (statusCode, body, options))
      | TransportError err \<Rightarrow>
          if rest \<noteq> []
          then requestWithFallback_loop net payload rest (Some err) (attempts @ [options])
          else (attempts @ [options], Inl err))"

definition requestWithFallback ::
  "network \<Rightarrow> options list \<Rightarrow> openai_request
     \<Rightarrow> options list \<times> (string + nat \<times> string \<times> options)" where
  "requestWithFallback net optionsList payload =
     requestWithFallback_loop net payload optionsList None []"

section \<open>The client's event stream\<close>

datatype start_block = StartText | StartToolUse string string

datatype delta = TextDelta string | InputJsonDelta string

text \<open>One call of \<^verbatim>\<open>res.write(sseEvent(...))\<close>: the event with the fields that vary.
  \<open>MessageDelta\<close> carries the stop reason and the output-token count.\<close>

datatype sse_event =
    MessageStart string string
  | ContentBlockStart nat start_block
  | ContentBlockDelta nat delta
  | ContentBlockStop nat
  | MessageDelta stop_value int
  | MessageStop

text \<open>\<^verbatim>\<open>writeError\<close>, and the same five writes of \<^verbatim>\<open>handleStreaming\<close> on a reply
  whose status is not 200.\<close>

definition writeError :: "string \<Rightarrow> sse_event list" where
  "writeError message =
     [ContentBlockStart 0 StartText,
      ContentBlockDelta 0 (TextDelta message),
      ContentBlockStop 0,
      MessageDelta (StopReason ''end_turn'') 0,
      MessageStop]"

subsection \<open>The native stream relay\<close>

record tool_call_delta =
  tcd_index :: "nat option"
  tcd_id :: "string option"
  tcd_function :: "fn_call option"

record delta_obj =
  d_content :: "string option"
  d_tool_calls :: "tool_call_delta list option"

record stream_choice =
  sc_delta :: "delta_obj option"
  sc_finish_reason :: "string option"

record chunk =
  c_choices :: "stream_choice list option"
  c_usage :: "usage option"

text \<open>A complete line of the backend's body, as the \<^verbatim>\<open>data\<close> handler reads it: a line
  that does not start with \<^verbatim>\<open>data: \<close>, the marker \<^verbatim>\<open>[DONE]\<close>, a payload
  \<^verbatim>\<open>JSON.parse\<close> rejects, or a parsed chunk.\<close>

datatype sse_line = NotData | Done | Unparseable | Chunk chunk

record tool_acc =
  ta_id :: string
  ta_name :: string
  ta_arguments :: string

text \<open>The variables of \<^verbatim>\<open>handleStreaming\<close>. The set \<^verbatim>\<open>toolBlocksStarted\<close> is the
  list of its members in insertion order, the order its iteration follows.\<close>

record stream_state =
  textBlockStarted :: bool
  currentBlockIndex :: nat
  toolCalls :: "nat \<rightharpoonup> tool_acc"
  toolBlocksStarted :: "nat list"
  finishReason :: string
  outputTokens :: int

definition initial_state :: stream_state where
  "initial_state =
     \<lparr>textBlockStarted = False, currentBlockIndex = 0, toolCalls = Map.empty,
      toolBlocksStarted = [], finishReason = ''end_turn'', outputTokens = 0\<rparr>"

definition onFinishReason :: "stream_choice \<Rightarrow> stream_state \<Rightarrow> stream_state" where
  "onFinishReason choice s =
     (if str_truthy (sc_finish_reason choice) then
        s\<lparr>finishReason :=
            (if sc_finish_reason choice = Some ''tool_calls'' then ''tool_use''
             else if sc_finish_reason choice = Some ''length'' then ''max_tokens''
             else ''end_turn'')\<rparr>
      else s)"

definition onContent :: "delta_obj \<Rightarrow> stream_state \<Rightarrow> stream_state \<times> sse_event list" where
  "onContent d s =
     (if str_truthy (d_content d) then
        (s\<lparr>textBlockStarted := True\<rparr>,
         (if \<not> textBlockStarted s then [ContentBlockStart (currentBlockIndex s) StartText] else [])
         @ [ContentBlockDelta (currentBlockIndex s) (TextDelta (the (d_content d)))])
      else (s, []))"

definition closeText :: "stream_state \<Rightarrow> stream_state \<times> sse_event list" where
  "closeText s =
     (if textBlockStarted s \<and> toolBlocksStarted s = [] then
        (s\<lparr>currentBlockIndex := currentBlockIndex s + 1, textBlockStarted := False\<rparr>,
         [ContentBlockStop (currentBlockIndex s)])
      else (s, []))"

text \<open>One entry of \<^verbatim>\<open>delta.tool_calls\<close>.\<close>

definition onToolCall :: "tool_call_delta \<Rightarrow> stream_state \<Rightarrow> stream_state \<times> sse_event list" where
  "onToolCall tc s =
     (let tcIndex = (case tcd_index tc of None \<Rightarrow> 0 | Some i \<Rightarrow> i);
          blockIndex = currentBlockIndex s + tcIndex;
          arguments = Option.bind (tcd_function tc) fn_arguments;
          known = (case toolCalls s tcIndex of
                      None \<Rightarrow> \<lparr>ta_id = str_or (tcd_id tc) [], ta_name = [], ta_arguments = []\<rparr>
                    | Some t \<Rightarrow> t);
          toolCall =
            \<lparr>ta_id = str_or (tcd_id tc) (ta_id known),
             ta_name = str_or (Option.bind (tcd_function tc) fn_name) (ta_name known),
             ta_arguments = ta_arguments known @ str_or arguments []\<rparr>;
          opening = (blockIndex \<notin> set (toolBlocksStarted s) \<and> ta_name toolCall \<noteq> []);
          started = (if opening then toolBlocksStarted s @ [blockIndex] else toolBlocksStarted s)
      in (s\<lparr>toolCalls := (toolCalls s)(tcIndex \<mapsto> toolCall), toolBlocksStarted := started\<rparr>,
          (if opening
           then [ContentBlockStart blockIndex (StartToolUse (ta_id toolCall) (ta_name toolCall))]
           else [])
          @ (if str_truthy arguments \<and> blockIndex \<in> set started
             then [ContentBlockDelta blockIndex (InputJsonDelta (the arguments))]
             else [])))"

fun onToolCalls :: "tool_call_delta list \<Rightarrow> stream_state \<Rightarrow> stream_state \<times> sse_event list" where
  "onToolCalls [] s = (s, [])"
| "onToolCalls (tc # tcs) s =
     (let (s1, out1) = onToolCall tc s; (s2, out2) = onToolCalls tcs s1 in (s2, out1 @ out2))"

definition onToolCallsField :: "delta_obj \<Rightarrow> stream_state \<Rightarrow> stream_state \<times> sse_event list" where
  "onToolCallsField d s =
     (case d_tool_calls d of
        None \<Rightarrow> (s, [])
      | Some tcs \<Rightarrow>
          (let (s1, out1) = closeText s; (s2, out2) = onToolCalls tcs s1 in (s2, out1 @ out2)))"

definition onUsage :: "chunk \<Rightarrow> stream_state \<Rightarrow> stream_state" where
  "onUsage data s =
     (case c_usage data of
        None \<Rightarrow> s
      | Some u \<Rightarrow> s\<lparr>outputTokens := num_or (u_completion_tokens u) (outputTokens s)\<rparr>)"

text \<open>The body of the loop over the lines of one \<^verbatim>\<open>data\<close>
  event.\<close>

definition onLine :: "sse_line \<Rightarrow> stream_state \<Rightarrow> stream_state \<times> sse_event list" where
  "onLine line s =
     (case line of
        Chunk data \<Rightarrow>
          (case c_choices data of
             Some (choice # others) \<Rightarrow>
               (let d = (case sc_delta choice of
                           None \<Rightarrow> \<lparr>d_content = None, d_tool_calls = None\<rparr>
                         | Some d \<Rightarrow> d);
                    s0 = onFinishReason choice s;
                    (s1, out1) = onContent d s0;
                    (s2, out2) = onToolCallsField d s1
                in (onUsage data s2, out1 @ out2))
           | _ \<Rightarrow> (s, []))
      | _ \<Rightarrow> (s, []))"

fun onLines :: "sse_line list \<Rightarrow> stream_state \<Rightarrow> stream_state \<times> sse_event list" where
  "onLines [] s = (s, [])"
| "onLines (line # lines) s =
     (let (s1, out1) = onLine line s; (s2, out2) = onLines lines s1 in (s2, out1 @ out2))"

text \<open>The \<^verbatim>\<open>end\<close> handler of the backend's reply.\<close>

definition onEnd :: "stream_state \<Rightarrow> sse_event list" where
  "onEnd s =
     (if textBlockStarted s \<and> currentBlockIndex s \<notin> set (toolBlocksStarted s)
      then [ContentBlockStop (currentBlockIndex s)] else [])
     @ map ContentBlockStop (toolBlocksStarted s)
     @ (if \<not> textBlockStarted s \<and> toolBlocksStarted s = []
        then [ContentBlockStart 0 StartText, ContentBlockStop 0] else [])
     @ [MessageDelta (StopReason (finishReason s)) (outputTokens s), MessageStop]"

text \<open>How the backend's reply to the streaming request ends: its \<^verbatim>\<open>end\<close> event, or
  an \<^verbatim>\<open>error\<close> event on the reply.\<close>

datatype ending = Ended | Failed string

text \<open>The backend's answer to the streaming request: the request fails, or a reply comes
  with its status code and its body. The body is given twice, as the text the error branch
  collects and as the complete lines the relay reads.\<close>

datatype stream_reply =
    RequestError string
  | Reply nat string "sse_line list" ending

text \<open>What becomes of the promise a handler returns: it resolves, it rejects with an
  error, or it stays pending because no callback settles it.\<close>

datatype promise = Resolved | Rejected string | Pending

text \<open>The events written to the client and the fate of the returned promise. On a reply
  whose status is not 200 the handler only registers \<^verbatim>\<open>data\<close> and \<^verbatim>\<open>end\<close>
  callbacks: the error block is written when the reply ends, and a reply that fails
  before its end writes nothing more and settles nothing.\<close>

definition handleStreaming ::
  "string \<Rightarrow> string \<Rightarrow> stream_reply \<Rightarrow> sse_event list \<times> promise" where
  "handleStreaming msgId model reply =
     (case reply of
        RequestError err \<Rightarrow> ([MessageStart msgId model], Rejected err)
      | Reply statusCode errorBody lines ending \<Rightarrow>
          if statusCode \<noteq> 200
          then
            (case ending of
               Ended \<Rightarrow>
                 (MessageStart msgId model # writeError (''Error from Azure: '' @ errorBody),
                  Resolved)
             | Failed err \<Rightarrow> ([MessageStart msgId model], Pending))
          else
            (let (s, out) = onLines lines initial_state in
             case ending of
               Ended \<Rightarrow> (MessageStart msgId model # out @ onEnd s, Resolved)
             | Failed err \<Rightarrow> (MessageStart msgId model # out, Rejected err)))"

subsection \<open>The stream synthesized from one complete reply\<close>

text \<open>The events of one block of the translated reply at \<open>index\<close>; a block of another
  type writes nothing and leaves the index.\<close>

definition blockEvents :: "runtime \<Rightarrow> nat \<Rightarrow> content_block \<Rightarrow> sse_event list" where
  "blockEvents rt index b =
     (case b of
        Text t \<Rightarrow>
          [ContentBlockStart index StartText,
           ContentBlockDelta index (TextDelta t),
           ContentBlockStop index]
      | ToolUse ident name input \<Rightarrow>
          [ContentBlockStart index (StartToolUse ident name),
           ContentBlockDelta index
             (InputJsonDelta (JSON_stringify rt (if json_truthy input then input else JObj []))),
           ContentBlockStop index])"

fun contentEvents :: "runtime \<Rightarrow> nat \<Rightarrow> content_block list \<Rightarrow> sse_event list" where
  "contentEvents rt index [] = []"
| "contentEvents rt index (b # bs) = blockEvents rt index b @ contentEvents rt (index + 1) bs"

text \<open>\<open>decode\<close> is \<^verbatim>\<open>JSON.parse\<close> on the reply's body, read through the fields of
  \<open>openai_response\<close>; it gives the error message where the runtime throws.\<close>

type_synonym decoder = "string \<Rightarrow> string + openai_response"

definition handleStreamingFromNonStreaming ::
  "runtime \<Rightarrow> decoder \<Rightarrow> network \<Rightarrow> string \<Rightarrow> options list \<Rightarrow> openai_request \<Rightarrow> string
     \<Rightarrow> sse_event list" where
  "handleStreamingFromNonStreaming rt decode net msgId optionsList openaiReq model =
     MessageStart msgId model #
     (case snd (requestWithFallback net optionsList openaiReq) of
        Inl err \<Rightarrow> writeError (''Error from Azure: '' @ err)
      | Inr (statusCode, body, options) \<Rightarrow>
          if statusCode \<noteq> 200 then writeError (''Error from Azure: '' @ body)
          else
            (case decode body of
               Inl err \<Rightarrow> writeError (''Error from Azure: '' @ err)
             | Inr data \<Rightarrow>
                 (let response = convertResponse rt msgId data model in
                  (if cr_content response = []
                   then [ContentBlockStart 0 StartText, ContentBlockStop 0]
                   else contentEvents rt 0 (cr_content response))
                  @ [MessageDelta
                       (case cr_stop_reason response of
                          StopReason r \<Rightarrow> StopReason (str_or (Some r) ''end_turn'')
                        | member \<Rightarrow> member)
                       (cr_output_tokens response),
                     MessageStop])))"

subsection \<open>The reply that is not streamed\<close>

datatype http_body = RawBody string | JsonResponse claude_response | ErrorMessage string

record http_response =
  status :: nat
  body :: http_body

definition handleNonStreaming ::
  "runtime \<Rightarrow> decoder \<Rightarrow> network \<Rightarrow> string \<Rightarrow> options list \<Rightarrow> openai_request \<Rightarrow> string
     \<Rightarrow> http_response" where
  "handleNonStreaming rt decode net fresh optionsList openaiReq model =
     (case snd (requestWithFallback net optionsList openaiReq) of
        Inl err \<Rightarrow> \<lparr>status = 500, body = ErrorMessage err\<rparr>
      | Inr (statusCode, reply, options) \<Rightarrow>
          if statusCode \<noteq> 200
          then \<lparr>status = (if statusCode = 0 then 500 else statusCode), body = RawBody reply\<rparr>
          else
            (case decode reply of
               Inl err \<Rightarrow> \<lparr>status = 500, body = ErrorMessage err\<rparr>
             | Inr data \<Rightarrow>
                 \<lparr>status = 200, body = JsonResponse (convertResponse rt fresh data model)\<rparr>))"

section \<open>The gateway\<close>

text \<open>The handling of a parsed request to the messages route. The two ways to reach the
  backend are parameters: \<open>net\<close> answers a whole-reply request, \<open>stream\<close> a streaming one.\<close>

definition useResponsesAPI_for :: "AzureConfig \<Rightarrow> claude_request \<Rightarrow> bool" where
  "useResponsesAPI_for azure claudeReq =
     (shouldUseResponsesAPI azure \<and> \<not> hasToolUsage (messagesOf claudeReq))"

definition outboundRequest :: "runtime \<Rightarrow> AzureConfig \<Rightarrow> claude_request \<Rightarrow> openai_request" where
  "outboundRequest rt azure claudeReq =
     (let useResponsesAPI = useResponsesAPI_for azure claudeReq;
          openaiReq = buildOpenAIRequest rt claudeReq azure useResponsesAPI
      in if useResponsesAPI then openaiReq\<lparr>q_stream := False\<rparr> else openaiReq)"

definition azureUrls :: "runtime \<Rightarrow> AzureConfig \<Rightarrow> claude_request \<Rightarrow> options list" where
  "azureUrls rt azure claudeReq =
     (let deployment = getDeployment rt (str_or (r_model claudeReq) []) azure;
          useResponsesAPI = useResponsesAPI_for azure claudeReq
      in (if useResponsesAPI then buildResponsesUrls azure deployment
          else [chat_completions_url azure deployment])
         @ (if useResponsesAPI \<and> \<not> str_truthy (router azure)
            then [chat_completions_url azure deployment] else []))"

datatype client_reply =
    EventStream "sse_event list" promise
  | Http http_response

definition serveMessages ::
  "runtime \<Rightarrow> decoder \<Rightarrow> network \<Rightarrow> (options \<Rightarrow> openai_request \<Rightarrow> stream_reply) \<Rightarrow> string
     \<Rightarrow> AzureConfig \<Rightarrow> claude_request \<Rightarrow> client_reply" where
  "serveMessages rt decode net stream msgId azure claudeReq =
     (let originalModel = str_or (r_model claudeReq) [];
          wantsStream = (r_stream claudeReq = Some True);
          useResponsesAPI = useResponsesAPI_for azure claudeReq;
          openaiReq = outboundRequest rt azure claudeReq;
          reqOptionsList = azureUrls rt azure claudeReq
      in if wantsStream then
           (if useResponsesAPI then
              EventStream
                (handleStreamingFromNonStreaming rt decode net msgId reqOptionsList openaiReq
                   originalModel) Resolved
            else
              (case handleStreaming msgId originalModel (stream (hd reqOptionsList) openaiReq) of
                 (events, settled) \<Rightarrow> EventStream events settled))
         else Http (handleNonStreaming rt decode net msgId reqOptionsList openaiReq originalModel))"

section \<open>Example inputs\<close>

definition ex_tiered :: AzureConfig where
  "ex_tiered =
     \<lparr>endpoint = ''https://example.openai.azure.com'', apiKey = ''key'',
      apiVersion = ''2024-02-01'',
      deployments = \<lparr>opus = None, sonnet = None, haiku = Some ''gpt-4o-mini''\<rparr>,
      router = None, reasoningEffort = None, reasoningModel = None\<rparr>"

definition ex_router :: AzureConfig where
  "ex_router = ex_tiered\<lparr>router := Some ''model-router''\<rparr>"

text \<open>The UTF-8 bytes of U+212A, the Kelvin sign, which \<^verbatim>\<open>toLowerCase\<close> turns into
  the letter k.\<close>

definition kelvin :: string where
  "kelvin = [CHR 0xE2, CHR 0x84, CHR 0xAA]"

text \<open>The runtime's \<^verbatim>\<open>toLowerCase\<close> on the text of the examples: ASCII letters and
  the Kelvin sign.\<close>

fun ex_toLowerCase :: "string \<Rightarrow> string" where
  "ex_toLowerCase [] = []"
| "ex_toLowerCase (a # b # c # s) =
     (if [a, b, c] = kelvin then CHR ''k'' # ex_toLowerCase s
      else lower_char a # ex_toLowerCase (b # c # s))"
| "ex_toLowerCase (a # s) = lower_char a # ex_toLowerCase s"

definition ex_runtime :: runtime where
  "ex_runtime =
     \<lparr>JSON_stringify = (\<lambda>j. ''{}''), JSON_parse = (\<lambda>s. Some (JObj [])),
      toLowerCase = ex_toLowerCase\<rparr>"

definition ex_block :: block where
  "ex_block =
     \<lparr>b_type = None, b_text = None, b_source = None, b_id = None, b_name = None,
      b_input = None, b_tool_use_id = None, b_content = None, b_is_error = None\<rparr>"

definition ex_tool_result :: block where
  "ex_tool_result =
     ex_block\<lparr>b_type := Some ''tool_result'', b_tool_use_id := Some ''call_1'',
              b_content := Some (ContentString ''42'')\<rparr>"

definition ex_request :: claude_request where
  "ex_request =
     \<lparr>r_model = Some ''claude-haiku-x'',
      r_messages = Some [\<lparr>m_role = Some ''user'', m_content = StringContent ''hi''\<rparr>],
      r_system = None, r_max_tokens = None, r_temperature = None, r_tools = None,
      r_stream = Some False\<rparr>"

definition ex_tool_request :: claude_request where
  "ex_tool_request =
     ex_request\<lparr>r_messages :=
        Some [\<lparr>m_role = Some ''user'', m_content = ArrayContent [ex_tool_result]\<rparr>]\<rparr>"

definition ex_request_tokens :: "int option \<Rightarrow> claude_request" where
  "ex_request_tokens n = ex_request\<lparr>r_max_tokens := n\<rparr>"

definition ex_stream_request :: claude_request where
  "ex_stream_request = ex_request\<lparr>r_stream := Some True\<rparr>"

definition ex_reply_stop :: openai_response where
  "ex_reply_stop =
     \<lparr>p_id = Some ''chatcmpl-1'',
      p_choices = Some [\<lparr>ch_message = Some \<lparr>rm_content = Some ''hello'', rm_tool_calls = None\<rparr>,
                         ch_finish_reason = Some ''stop''\<rparr>],
      p_usage = None, p_output_text = None, p_output = None\<rparr>"

text \<open>The token limit written to the payload, under the field of its shape.\<close>

definition tokenLimit :: "bool \<Rightarrow> openai_request \<Rightarrow> int option" where
  "tokenLimit useResponsesAPI req =
     (if useResponsesAPI then q_max_output_tokens req else q_max_completion_tokens req)"

text \<open>A candidate the dispatcher passes over when it is not the last: it answers 404, or
  the request to it fails.\<close>

definition passed_over :: "network \<Rightarrow> openai_request \<Rightarrow> options \<Rightarrow> bool" where
  "passed_over net payload c =
     (case net c (adaptPayload c payload) of
        Response statusCode reply \<Rightarrow> statusCode = 404
      | TransportError err \<Rightarrow> True)"

text \<open>What the dispatcher returns or throws when it stops at a candidate.\<close>

definition settled_by ::
  "network \<Rightarrow> openai_request \<Rightarrow> options \<Rightarrow> string + nat \<times> string \<times> options" where
  "settled_by net payload c =
     (case net c (adaptPayload c payload) of
        Response statusCode reply \<Rightarrow> Inr (statusCode, reply, c)
      | TransportError err \<Rightarrow> Inl err)"

definition ex_payload :: openai_request where
  "ex_payload = outboundRequest ex_runtime ex_router ex_request"

definition ex_c1 :: options where
  "ex_c1 = responses_url ex_router ''2024-02-01''"

definition ex_c2 :: options where
  "ex_c2 = deployment_responses_url ex_router ''model-router'' ''2024-02-01''"

definition ex_c3 :: options where
  "ex_c3 = chat_completions_url ex_router ''model-router''"

text \<open>A backend whose router path cannot be reached, and that answers 404 on the
  deployment's Responses path and 200 on its chat-completions path.\<close>

definition ex_net :: network where
  "ex_net opts payload =
     (if opts = ex_c1 then TransportError ''ECONNRESET''
      else if opts = ex_c2 then Response 404 ''Resource not found''
      else Response 200 ''{}'')"

text \<open>A backend that rejects every request with status 429.\<close>

definition ex_busy :: network where
  "ex_busy opts payload = Response 429 ''rate limited''"

section \<open>Properties of an event stream\<close>

fun start_index :: "sse_event \<Rightarrow> nat list" where
  "start_index (ContentBlockStart i b) = [i]"
| "start_index e = []"

fun stop_index :: "sse_event \<Rightarrow> nat list" where
  "stop_index (ContentBlockStop i) = [i]"
| "stop_index e = []"

text \<open>The indices of the \<^verbatim>\<open>content_block_start\<close> events, and of the
  \<^verbatim>\<open>content_block_stop\<close> events, in the order of the stream.\<close>

definition starts :: "sse_event list \<Rightarrow> nat list" where
  "starts evs = concat (map start_index evs)"

definition stops :: "sse_event list \<Rightarrow> nat list" where
  "stops evs = concat (map stop_index evs)"

text \<open>Every delta comes after a start of its index; \<open>seen\<close> are the indices started so
  far.\<close>

fun deltas_follow_start :: "nat list \<Rightarrow> sse_event list \<Rightarrow> bool" where
  "deltas_follow_start seen [] = True"
| "deltas_follow_start seen (ContentBlockStart i b # es) = deltas_follow_start (i # seen) es"
| "deltas_follow_start seen (ContentBlockDelta i d # es) =
     (i \<in> set seen \<and> deltas_follow_start seen es)"
| "deltas_follow_start seen (e # es) = deltas_follow_start seen es"

text \<open>The deltas of an index are contiguous: \<open>run\<close> is the index of the delta just read,
  if the last event was a delta, and \<open>over\<close> are the indices whose deltas were followed by
  another event.\<close>

fun deltas_contiguous :: "nat option \<Rightarrow> nat list \<Rightarrow> sse_event list \<Rightarrow> bool" where
  "deltas_contiguous run over [] = True"
| "deltas_contiguous run over (ContentBlockDelta i d # es) =
     (i \<notin> set over
      \<and> deltas_contiguous (Some i)
          (case run of None \<Rightarrow> over | Some j \<Rightarrow> if j = i then over else j # over) es)"
| "deltas_contiguous run over (e # es) =
     deltas_contiguous None (case run of None \<Rightarrow> over | Some j \<Rightarrow> j # over) es"

text \<open>No delta of an index comes after a stop of that index; \<open>stopped\<close> are the indices
  stopped so far.\<close>

fun stop_follows_deltas :: "nat list \<Rightarrow> sse_event list \<Rightarrow> bool" where
  "stop_follows_deltas stopped [] = True"
| "stop_follows_deltas stopped (ContentBlockStop i # es) = stop_follows_deltas (i # stopped) es"
| "stop_follows_deltas stopped (ContentBlockDelta i d # es) =
     (i \<notin> set stopped \<and> stop_follows_deltas stopped es)"
| "stop_follows_deltas stopped (e # es) = stop_follows_deltas stopped es"

text \<open>The blocks started and not stopped since, each by its index, the latest first: a
  start opens a block and a stop closes one block of its index.\<close>

fun still_open :: "nat list \<Rightarrow> sse_event list \<Rightarrow> nat list" where
  "still_open opn [] = opn"
| "still_open opn (ContentBlockStart i b # es) = still_open (i # opn) es"
| "still_open opn (ContentBlockStop i # es) = still_open (remove1 i opn) es"
| "still_open opn (e # es) = still_open opn es"

text \<open>When a block starts, no block of a smaller index is still open: the stop of a block
  precedes the start of every later block.\<close>

fun stop_precedes_later_start :: "nat list \<Rightarrow> sse_event list \<Rightarrow> bool" where
  "stop_precedes_later_start opn [] = True"
| "stop_precedes_later_start opn (ContentBlockStart i b # es) =
     ((\<forall>j \<in> set opn. \<not> j < i) \<and> stop_precedes_later_start (i # opn) es)"
| "stop_precedes_later_start opn (ContentBlockStop i # es) =
     stop_precedes_later_start (removeAll i opn) es"
| "stop_precedes_later_start opn (e # es) = stop_precedes_later_start opn es"

fun is_message_end :: "sse_event \<Rightarrow> bool" where
  "is_message_end (MessageDelta r n) = True"
| "is_message_end MessageStop = True"
| "is_message_end e = False"

text \<open>The stream ends with one \<^verbatim>\<open>message_delta\<close> and one \<^verbatim>\<open>message_stop\<close>, and
  has no other.\<close>

definition message_end_last :: "sse_event list \<Rightarrow> bool" where
  "message_end_last evs =
     (case rev evs of
        MessageStop # MessageDelta r n # front \<Rightarrow> \<not> list_ex is_message_end front
      | _ \<Rightarrow> False)"

definition counts_match :: "sse_event list \<Rightarrow> bool" where
  "counts_match evs = (length (starts evs) = length (stops evs))"

definition indices_increase :: "sse_event list \<Rightarrow> bool" where
  "indices_increase evs = sorted_wrt (<) (starts evs)"

text \<open>The ordering a client relies on, as one predicate: as many starts as stops, start
  indices strictly increasing, every delta after a start of its index, the deltas of an
  index contiguous, no delta after the stop of its index, the stop of a block before the
  start of every later block, and the message end last.\<close>

definition well_ordered :: "sse_event list \<Rightarrow> bool" where
  "well_ordered evs =
     (counts_match evs \<and> indices_increase evs \<and> deltas_follow_start [] evs
      \<and> deltas_contiguous None [] evs \<and> stop_follows_deltas [] evs
      \<and> stop_precedes_later_start [] evs \<and> message_end_last evs)"

fun tool_start_index :: "sse_event \<Rightarrow> nat list" where
  "tool_start_index (ContentBlockStart i (StartToolUse ident name)) = [i]"
| "tool_start_index e = []"

text \<open>The indices of the starts of \<^verbatim>\<open>tool_use\<close> blocks, in the order of the
  stream.\<close>

definition tool_starts :: "sse_event list \<Rightarrow> nat list" where
  "tool_starts evs = concat (map tool_start_index evs)"

fun is_delta :: "sse_event \<Rightarrow> bool" where
  "is_delta (ContentBlockDelta i d) = True"
| "is_delta e = False"

section \<open>Example streams\<close>

definition ex_tool_delta :: "nat \<Rightarrow> string option \<Rightarrow> string option \<Rightarrow> string option \<Rightarrow> sse_line" where
  "ex_tool_delta i ident name arguments =
     Chunk \<lparr>c_choices = Some [\<lparr>sc_delta = Some \<lparr>d_content = None,
                d_tool_calls = Some [\<lparr>tcd_index = Some i, tcd_id = ident,
                   tcd_function = Some \<lparr>fn_name = name, fn_arguments = arguments\<rparr>\<rparr>]\<rparr>,
              sc_finish_reason = None\<rparr>],
            c_usage = None\<rparr>"

definition ex_text_delta :: "string \<Rightarrow> sse_line" where
  "ex_text_delta t =
     Chunk \<lparr>c_choices = Some [\<lparr>sc_delta = Some \<lparr>d_content = Some t, d_tool_calls = None\<rparr>,
              sc_finish_reason = None\<rparr>],
            c_usage = None\<rparr>"

definition ex_finish :: "string \<Rightarrow> sse_line" where
  "ex_finish r =
     Chunk \<lparr>c_choices = Some [\<lparr>sc_delta = Some \<lparr>d_content = None, d_tool_calls = None\<rparr>,
              sc_finish_reason = Some r\<rparr>],
            c_usage = None\<rparr>"

text \<open>Two tool calls in one reply, as the backend streams them: each call's name first,
  then its arguments.\<close>

definition ex_two_tools :: "sse_line list" where
  "ex_two_tools =
     [ex_tool_delta 0 (Some ''call_a'') (Some ''read'') None,
      ex_tool_delta 0 None None (Some ''{}''),
      ex_tool_delta 1 (Some ''call_b'') (Some ''list'') None,
      ex_tool_delta 1 None None (Some ''{}''),
      ex_finish ''tool_calls'',
      Done]"

definition ex_tool_then_text :: "sse_line list" where
  "ex_tool_then_text =
     [ex_tool_delta 0 (Some ''call_a'') (Some ''read'') (Some ''{}''),
      ex_text_delta ''hi'',
      ex_finish ''stop'']"

section \<open>Invariants of the native relay\<close>

text \<open>The count of starts is the count of stops plus the blocks the state holds open.\<close>

definition count_inv :: "sse_event list \<Rightarrow> stream_state \<Rightarrow> bool" where
  "count_inv tr s =
     (length (starts tr)
        = length (stops tr) + length (toolBlocksStarted s) + (if textBlockStarted s then 1 else 0))"

text \<open>The loop writes content-block events only.\<close>

definition block_events_only :: "sse_event list \<Rightarrow> stream_state \<Rightarrow> bool" where
  "block_events_only tr s = (\<not> list_ex is_message_end tr)"

text \<open>The tool blocks the state holds started are the tool starts written, in order.\<close>

definition tools_inv :: "sse_event list \<Rightarrow> stream_state \<Rightarrow> bool" where
  "tools_inv tr s = (tool_starts tr = toolBlocksStarted s)"

text \<open>Every delta written follows a start of its index, and the blocks the state holds
  open were started.\<close>

definition follow_inv :: "sse_event list \<Rightarrow> stream_state \<Rightarrow> bool" where
  "follow_inv tr s =
     (deltas_follow_start [] tr
      \<and> (textBlockStarted s \<longrightarrow> currentBlockIndex s \<in> set (starts tr))
      \<and> set (toolBlocksStarted s) \<subseteq> set (starts tr))"

text \<open>No delta written follows a stop of its index: the indices stopped are below the
  current block index, and no later event has an index below it.\<close>

definition stop_inv :: "sse_event list \<Rightarrow> stream_state \<Rightarrow> bool" where
  "stop_inv tr s =
     (stop_follows_deltas [] tr \<and> (\<forall>i \<in> set (stops tr). i < currentBlockIndex s))"

text \<open>The blocks open in the stream written are the blocks the state holds open, one for
  one.\<close>

definition open_inv :: "sse_event list \<Rightarrow> stream_state \<Rightarrow> bool" where
  "open_inv tr s =
     (mset (still_open [] tr)
        = mset (toolBlocksStarted s)
          + (if textBlockStarted s then {#currentBlockIndex s#} else {#}))"

text \<open>The delta the relay reads from a line: that of the first choice of a chunk that has
  one, an empty object when the choice has none.\<close>

definition line_delta :: "sse_line \<Rightarrow> delta_obj option" where
  "line_delta line =
     (case line of
        Chunk data \<Rightarrow>
          (case c_choices data of
             Some (choice # others) \<Rightarrow>
               Some (case sc_delta choice of
                       None \<Rightarrow> \<lparr>d_content = None, d_tool_calls = None\<rparr>
                     | Some d \<Rightarrow> d)
           | _ \<Rightarrow> None)
      | _ \<Rightarrow> None)"

definition has_content :: "sse_line \<Rightarrow> bool" where
  "has_content line =
     (case line_delta line of None \<Rightarrow> False | Some d \<Rightarrow> str_truthy (d_content d))"

definition has_tool_calls :: "sse_line \<Rightarrow> bool" where
  "has_tool_calls line =
     (case line_delta line of None \<Rightarrow> False | Some d \<Rightarrow> d_tool_calls d \<noteq> None)"

text \<open>No text arrives after a line that carries tool calls.\<close>

fun text_before_tools :: "sse_line list \<Rightarrow> bool" where
  "text_before_tools [] = True"
| "text_before_tools (line # lines) =
     ((has_tool_calls line \<longrightarrow> \<not> list_ex has_content lines) \<and> text_before_tools lines)"

text \<open>The finish reason a line reports: that of the first choice, when it is not
  empty.\<close>

definition reported_finish :: "sse_line \<Rightarrow> string option" where
  "reported_finish line =
     (case line of
        Chunk data \<Rightarrow>
          (case c_choices data of
             Some (choice # others) \<Rightarrow>
               if str_truthy (sc_finish_reason choice) then sc_finish_reason choice else None
           | _ \<Rightarrow> None)
      | _ \<Rightarrow> None)"

definition stop_reason_of :: "string \<Rightarrow> string" where
  "stop_reason_of f =
     (if f = ''tool_calls'' then ''tool_use''
      else if f = ''length'' then ''max_tokens''
      else ''end_turn'')"

text \<open>The stop reason of a stream: the last finish reason reported, mapped;
  \<^verbatim>\<open>end_turn\<close>
  when none was.\<close>

definition mapped_stop_reason :: "sse_line list \<Rightarrow> string" where
  "mapped_stop_reason lines =
     (let fs = List.map_filter reported_finish lines
      in if fs = [] then ''end_turn'' else stop_reason_of (last fs))"

text \<open>The output-token count a line reports: the \<^verbatim>\<open>completion_tokens\<close> of the usage of
  a chunk that has a choice, when it is not 0.\<close>

definition reported_tokens :: "sse_line \<Rightarrow> int option" where
  "reported_tokens line =
     (case line of
        Chunk data \<Rightarrow>
          (case c_choices data of
             Some (choice # others) \<Rightarrow>
               (case Option.bind (c_usage data) u_completion_tokens of
                  None \<Rightarrow> None
                | Some n \<Rightarrow> if n = 0 then None else Some n)
           | _ \<Rightarrow> None)
      | _ \<Rightarrow> None)"

definition final_output_tokens :: "sse_line list \<Rightarrow> int" where
  "final_output_tokens lines =
     (let ns = List.map_filter reported_tokens lines in if ns = [] then 0 else last ns)"

text \<open>The stops at stream end and the empty block written when nothing is open: the
  events of the \<^verbatim>\<open>end\<close> handler before \<^verbatim>\<open>message_delta\<close>.\<close>

definition closing :: "stream_state \<Rightarrow> sse_event list" where
  "closing s =
     (if textBlockStarted s \<and> currentBlockIndex s \<notin> set (toolBlocksStarted s)
      then [ContentBlockStop (currentBlockIndex s)] else [])
     @ map ContentBlockStop (toolBlocksStarted s)
     @ (if \<not> textBlockStarted s \<and> toolBlocksStarted s = []
        then [ContentBlockStart 0 StartText, ContentBlockStop 0] else [])"

definition ex_text_stream :: "sse_line list" where
  "ex_text_stream = [NotData, ex_text_delta ''Hel'', ex_text_delta ''lo'', ex_finish ''stop'', Done]"

text \<open>A stream without tool calls is one text block.\<close>

definition text_only_shape :: "sse_event list \<Rightarrow> stream_state \<Rightarrow> bool" where
  "text_only_shape tr s =
     (currentBlockIndex s = 0 \<and> toolBlocksStarted s = []
      \<and> (if textBlockStarted s
          then \<exists>ds. tr = ContentBlockStart 0 StartText # map (ContentBlockDelta 0) ds
          else tr = []))"

section \<open>Tool invocations of a history\<close>



text \<open>What a \<^verbatim>\<open>tool_use\<close> block invokes: its identifier, its name and its input, an absent
  identifier or name read as the empty string and an absent input as the empty object.\<close>

definition invocation_of :: "block \<Rightarrow> content_block" where
  "invocation_of tb =
     ToolUse (str_or (b_id tb) []) (str_or (b_name tb) []) (json_or (b_input tb) (JObj []))"

text \<open>The tool calls a backend message list carries.\<close>

definition carried_tool_calls :: "out_message list \<Rightarrow> tool_call list" where
  "carried_tool_calls messages =
     concat (map (\<lambda>m. case o_tool_calls m of None \<Rightarrow> [] | Some tcs \<Rightarrow> tcs) messages)"








text \<open>A character is the pattern's character, or the upper-case form of it.\<close>

definition same_letter :: "char \<Rightarrow> char \<Rightarrow> bool" where
  "same_letter c p = (c = p \<or> (c, p) \<in> set letters)"

text \<open>The text starts with, or contains, a lower-case pattern when the case of its letters
  is disregarded.\<close>

fun starts_ci :: "string \<Rightarrow> string \<Rightarrow> bool" where
  "starts_ci s [] = True"
| "starts_ci [] (p # ps) = False"
| "starts_ci (c # s) (p # ps) = (same_letter c p \<and> starts_ci s ps)"

fun contains_ci :: "string \<Rightarrow> string \<Rightarrow> bool" where
  "contains_ci [] p = (p = [])"
| "contains_ci (c # s) p = (starts_ci (c # s) p \<or> contains_ci s p)"

text \<open>A configuration with a deployment of its own for each tier.\<close>

definition ex_three_tiers :: AzureConfig where
  "ex_three_tiers =
     ex_tiered\<lparr>deployments :=
       \<lparr>opus = Some ''gpt-5'', sonnet = Some ''gpt-4.1'', haiku = Some ''gpt-4o-mini''\<rparr>\<rparr>"

text \<open>A reply with one choice, the text hello and the given finish reason.\<close>

definition ex_reply_finish :: "string \<Rightarrow> openai_response" where
  "ex_reply_finish f =
     ex_reply_stop\<lparr>p_choices :=
       Some [\<lparr>ch_message = Some \<lparr>rm_content = Some ''hello'', rm_tool_calls = None\<rparr>,
              ch_finish_reason = Some f\<rparr>]\<rparr>"

text \<open>The stream the synthesized path owes the client for one translated reply: after
  \<^verbatim>\<open>message_start\<close>, one cycle of start, delta and stop for each content block of the
  reply, in the reply's order and numbered from 0 (an empty text block when the reply has no
  block), then \<^verbatim>\<open>message_delta\<close> with the reply's stop reason and output tokens, then
  \<^verbatim>\<open>message_stop\<close>.\<close>

definition block_cycle :: "runtime \<Rightarrow> nat \<times> content_block \<Rightarrow> sse_event list" where
  "block_cycle rt ib =
     (case ib of
        (i, Text t) \<Rightarrow>
          [ContentBlockStart i StartText, ContentBlockDelta i (TextDelta t), ContentBlockStop i]
      | (i, ToolUse ident name input) \<Rightarrow>
          [ContentBlockStart i (StartToolUse ident name),
           ContentBlockDelta i
             (InputJsonDelta (JSON_stringify rt (if json_truthy input then input else JObj []))),
           ContentBlockStop i])"

definition synthesized_stream ::
  "runtime \<Rightarrow> string \<Rightarrow> string \<Rightarrow> claude_response \<Rightarrow> sse_event list" where
  "synthesized_stream rt msgId model response =
     MessageStart msgId model
     # (if cr_content response = [] then [ContentBlockStart 0 StartText, ContentBlockStop 0]
        else concat (map (block_cycle rt) (enumerate 0 (cr_content response))))
     @ [MessageDelta (cr_stop_reason response) (cr_output_tokens response), MessageStop]"

text \<open>The stream of an error message: one text block with the message, and the close.\<close>

definition error_stream :: "string \<Rightarrow> string \<Rightarrow> string \<Rightarrow> sse_event list" where
  "error_stream msgId model message =
     [MessageStart msgId model,
      ContentBlockStart 0 StartText,
      ContentBlockDelta 0 (TextDelta (''Error from Azure: '' @ message)),
      ContentBlockStop 0,
      MessageDelta (StopReason ''end_turn'') 0,
      MessageStop]"

text \<open>A backend that answers every request with status 200 and one complete reply, and
  the reading of that reply.\<close>

definition ex_body :: string where
  \<open>ex_body = ''{"id":"chatcmpl-1","choices":[{"message":{"content":"hello"},"finish_reason":"stop"}]}''\<close>

definition ex_ok :: network where
  "ex_ok opts payload = Response 200 ex_body"

definition ex_decode :: decoder where
  "ex_decode b = (if b = ex_body then Inr ex_reply_stop else Inl ''Unexpected token'')"

section \<open>Verified properties\<close>

subsection \<open>Endpoint resolution\<close>

lemma startsWith_iff: "startsWith s p \<longleftrightarrow> (\<exists>b. s = p @ b)"
  by (induction s p rule: startsWith.induct) auto

lemma str_includes_iff: "str_includes s p \<longleftrightarrow> (\<exists>a b. s = a @ p @ b)"
proof (induction s)
  case Nil
  then show ?case by auto
next
  case (Cons c s)
  show ?case
  proof
    assume "str_includes (c # s) p"
    then consider "startsWith (c # s) p" | "str_includes s p" by auto
    then show "\<exists>a b. c # s = a @ p @ b"
    proof cases
      case 1
      then obtain b where "c # s = p @ b" using startsWith_iff by blast
      then have "c # s = [] @ p @ b" by simp
      then show ?thesis by blast
    next
      case 2
      then obtain a b where "s = a @ p @ b" using Cons.IH by blast
      then have "c # s = (c # a) @ p @ b" by simp
      then show ?thesis by blast
    qed
  next
    assume "\<exists>a b. c # s = a @ p @ b"
    then obtain a b where ab: "c # s = a @ p @ b" by blast
    show "str_includes (c # s) p"
    proof (cases a)
      case Nil
      then have "startsWith (c # s) p" using ab startsWith_iff by auto
      then show ?thesis by simp
    next
      case (Cons x a')
      then have "s = a' @ p @ b" using ab by simp
      then have "str_includes s p" using Cons.IH by blast
      then show ?thesis by simp
    qed
  qed
qed

text \<open>When the native shape is selected the candidate list is the one chat-completions
  URL, the target \<^verbatim>\<open>reqOptionsList[0]\<close> of the native stream relay.\<close>

lemma azureUrls_native:
  "\<not> useResponsesAPI_for azure claudeReq \<Longrightarrow>
     azureUrls rt azure claudeReq
       = [chat_completions_url azure (getDeployment rt (str_or (r_model claudeReq) []) azure)]"
  by (simp add: azureUrls_def Let_def)

lemma str_or_simps:
  "str_or None d = d" "str_or (Some []) d = d" "s \<noteq> [] \<Longrightarrow> str_or (Some s) d = s"
  by (simp_all add: str_or_def)

lemma hasToolUsage_iff:
  "hasToolUsage ms \<longleftrightarrow>
     (\<exists>m \<in> set ms. \<exists>bs. m_content m = ArrayContent bs
        \<and> (\<exists>b \<in> set bs. b_type b = Some ''tool_use'' \<or> b_type b = Some ''tool_result''))"
proof -
  have blk: "is_tool_block b \<longleftrightarrow> (b_type b = Some ''tool_use'' \<or> b_type b = Some ''tool_result'')"
    for b
    by (auto simp: is_tool_block_def blockType_def str_or_def split: option.splits if_splits)
  have msg: "message_has_tool m \<longleftrightarrow>
      (\<exists>bs. m_content m = ArrayContent bs
        \<and> (\<exists>b \<in> set bs. b_type b = Some ''tool_use'' \<or> b_type b = Some ''tool_result''))" for m
    by (cases "m_content m") (simp_all add: list_ex_iff blk)
  show ?thesis
    by (simp add: hasToolUsage_def list_ex_iff msg del: message_has_tool.simps)
qed

lemma buildOpenAIRequest_shape:
  "q_input (buildOpenAIRequest rt claudeReq config u) = None \<longleftrightarrow> \<not> u"
  "q_messages (buildOpenAIRequest rt claudeReq config u) = None \<longleftrightarrow> u"
  by (simp_all add: buildOpenAIRequest_def Let_def)


text \<open>\<^bold>\<open>C4.\<close> For every request whose history has a message with a
  \<^verbatim>\<open>tool_use\<close> or \<^verbatim>\<open>tool_result\<close> block, the
  Responses shape is not used, whatever the router and the API version: the payload carries
  \<^verbatim>\<open>messages\<close>, not \<^verbatim>\<open>input\<close>, and the only
  candidate is the chat-completions URL. For a history with no such block, the Responses
  shape is used exactly when a router is configured or the API version starts with
  \<^verbatim>\<open>2025-04-01\<close> or \<^verbatim>\<open>2024-08-01\<close>.\<close>

theorem shape_selection:
  "((\<exists>m \<in> set (messagesOf claudeReq). \<exists>bs. m_content m = ArrayContent bs
        \<and> (\<exists>b \<in> set bs. b_type b = Some ''tool_use'' \<or> b_type b = Some ''tool_result''))
      \<longrightarrow> \<not> useResponsesAPI_for azure claudeReq
          \<and> q_input (outboundRequest rt azure claudeReq) = None
          \<and> q_messages (outboundRequest rt azure claudeReq) \<noteq> None
          \<and> azureUrls rt azure claudeReq
              = [chat_completions_url azure (getDeployment rt (str_or (r_model claudeReq) []) azure)])
   \<and> (\<not> (\<exists>m \<in> set (messagesOf claudeReq). \<exists>bs. m_content m = ArrayContent bs
        \<and> (\<exists>b \<in> set bs. b_type b = Some ''tool_use'' \<or> b_type b = Some ''tool_result''))
      \<longrightarrow> useResponsesAPI_for azure claudeReq
            = (str_truthy (router azure) \<or> startsWith (apiVersion azure) ''2025-04-01''
               \<or> startsWith (apiVersion azure) ''2024-08-01'')
          \<and> (q_input (outboundRequest rt azure claudeReq) \<noteq> None)
            = (str_truthy (router azure) \<or> startsWith (apiVersion azure) ''2025-04-01''
               \<or> startsWith (apiVersion azure) ''2024-08-01''))"
proof -
  have h: "hasToolUsage (messagesOf claudeReq) \<longleftrightarrow>
     (\<exists>m \<in> set (messagesOf claudeReq). \<exists>bs. m_content m = ArrayContent bs
        \<and> (\<exists>b \<in> set bs. b_type b = Some ''tool_use'' \<or> b_type b = Some ''tool_result''))"
    by (rule hasToolUsage_iff)
  have u: "useResponsesAPI_for azure claudeReq
      = ((str_truthy (router azure) \<or> startsWith (apiVersion azure) ''2025-04-01''
               \<or> startsWith (apiVersion azure) ''2024-08-01'') \<and> \<not> hasToolUsage (messagesOf claudeReq))"
    by (simp add: useResponsesAPI_for_def shouldUseResponsesAPI_def isResponsesApiVersion_def
        messagesOf_def)
  have q: "q_input (outboundRequest rt azure claudeReq) = None \<longleftrightarrow> \<not> useResponsesAPI_for azure claudeReq"
    "q_messages (outboundRequest rt azure claudeReq) = None \<longleftrightarrow> useResponsesAPI_for azure claudeReq"
    by (simp_all add: outboundRequest_def Let_def buildOpenAIRequest_shape)
  have a: "\<not> useResponsesAPI_for azure claudeReq \<Longrightarrow> azureUrls rt azure claudeReq
              = [chat_completions_url azure (getDeployment rt (str_or (r_model claudeReq) []) azure)]"
    by (simp add: azureUrls_def Let_def)
  show ?thesis
    unfolding h [symmetric] using u q a by auto
qed

theorem shape_selection_witness:
  "(\<exists>m \<in> set (messagesOf ex_tool_request). \<exists>bs. m_content m = ArrayContent bs
        \<and> (\<exists>b \<in> set bs. b_type b = Some ''tool_use'' \<or> b_type b = Some ''tool_result''))
   \<and> str_truthy (router ex_router)
   \<and> \<not> useResponsesAPI_for ex_router ex_tool_request
   \<and> q_input (outboundRequest ex_runtime ex_router ex_tool_request) = None
   \<and> \<not> (\<exists>m \<in> set (messagesOf ex_request). \<exists>bs. m_content m = ArrayContent bs
        \<and> (\<exists>b \<in> set bs. b_type b = Some ''tool_use'' \<or> b_type b = Some ''tool_result''))
   \<and> useResponsesAPI_for ex_router ex_request
   \<and> \<not> useResponsesAPI_for ex_tiered ex_request"
proof -
  have t: "\<exists>m \<in> set (messagesOf ex_tool_request). \<exists>bs. m_content m = ArrayContent bs
        \<and> (\<exists>b \<in> set bs. b_type b = Some ''tool_use'' \<or> b_type b = Some ''tool_result'')"
    by (simp add: messagesOf_def ex_tool_request_def ex_request_def ex_tool_result_def ex_block_def)
  have n: "\<not> (\<exists>m \<in> set (messagesOf ex_request). \<exists>bs. m_content m = ArrayContent bs
        \<and> (\<exists>b \<in> set bs. b_type b = Some ''tool_use'' \<or> b_type b = Some ''tool_result''))"
    by (simp add: messagesOf_def ex_request_def)
  have r: "str_truthy (router ex_router)" "\<not> str_truthy (router ex_tiered)"
    "\<not> startsWith (apiVersion ex_tiered) ''2025-04-01''"
    "\<not> startsWith (apiVersion ex_tiered) ''2024-08-01''"
    by (simp_all add: ex_router_def ex_tiered_def str_truthy_def)
  show ?thesis
    using shape_selection [of ex_tool_request ex_router ex_runtime]
      shape_selection [of ex_request ex_router ex_runtime]
      shape_selection [of ex_request ex_tiered ex_runtime] t n r
    by blast
qed

subsection \<open>The token limit\<close>

lemma tokenLimit_build:
  "tokenLimit u (buildOpenAIRequest rt claudeReq config u)
     = Some (clampTokens (num_or (r_max_tokens claudeReq) 64000))"
  by (simp add: tokenLimit_def buildOpenAIRequest_def Let_def)

text \<open>A requested \<^verbatim>\<open>max_tokens\<close> of 0 is falsy, so
  \<^verbatim>\<open>claudeReq.max_tokens || 64000\<close> takes the default: the payload
  carries 64000, not 4096.\<close>

theorem token_limit_zero_counterexample:
  "tokenLimit False (buildOpenAIRequest ex_runtime (ex_request_tokens (Some 0)) ex_tiered False)
     = Some 64000
   \<and> tokenLimit False (buildOpenAIRequest ex_runtime (ex_request_tokens (Some 0)) ex_tiered False)
     \<noteq> Some 4096"
  by (simp add: tokenLimit_build ex_request_tokens_def ex_request_def clampTokens_def num_or_def)

text \<open>\<^bold>\<open>C2 (amended).\<close> For every client request the token limit
  written to the payload (\<^verbatim>\<open>max_output_tokens\<close> for the alternate
  shape, \<^verbatim>\<open>max_completion_tokens\<close> for the native one) lies in
  4096..128000. An absent \<^verbatim>\<open>max_tokens\<close>, and a
  \<^verbatim>\<open>max_tokens\<close> of 0, give the default 64000; any other requested
  value is clamped into the range.\<close>

theorem token_limit_clamped:
  "(\<exists>n. tokenLimit u (buildOpenAIRequest rt claudeReq config u) = Some n
        \<and> 4096 \<le> n \<and> n \<le> 128000)
   \<and> (r_max_tokens claudeReq = None \<or> r_max_tokens claudeReq = Some 0 \<longrightarrow>
        tokenLimit u (buildOpenAIRequest rt claudeReq config u) = Some 64000)
   \<and> (\<forall>m. r_max_tokens claudeReq = Some m \<and> m \<noteq> 0 \<longrightarrow>
        tokenLimit u (buildOpenAIRequest rt claudeReq config u) = Some (max 4096 (min m 128000)))"
  by (auto simp: tokenLimit_build clampTokens_def num_or_def)

theorem token_limit_clamped_witness:
  "tokenLimit True (buildOpenAIRequest ex_runtime (ex_request_tokens (Some 999999)) ex_router True)
     = Some 128000
   \<and> tokenLimit False (buildOpenAIRequest ex_runtime (ex_request_tokens (Some 8000)) ex_tiered False)
     = Some 8000
   \<and> tokenLimit False (buildOpenAIRequest ex_runtime (ex_request_tokens (Some 1)) ex_tiered False)
     = Some 4096
   \<and> tokenLimit False (buildOpenAIRequest ex_runtime (ex_request_tokens None) ex_tiered False)
     = Some 64000"
  using token_limit_clamped [of True ex_runtime "ex_request_tokens (Some 999999)" ex_router]
    token_limit_clamped [of False ex_runtime "ex_request_tokens (Some 8000)" ex_tiered]
    token_limit_clamped [of False ex_runtime "ex_request_tokens (Some 1)" ex_tiered]
    token_limit_clamped [of False ex_runtime "ex_request_tokens None" ex_tiered]
  by (simp add: ex_request_tokens_def ex_request_def)

subsection \<open>The reverse mapping\<close>

subsection \<open>The gateway and the alternate shape\<close>

lemma adaptPayload_stream: "q_stream (adaptPayload opts payload) = q_stream payload"
  by (simp add: adaptPayload_def Let_def split: option.splits)

subsection \<open>The dispatcher\<close>

lemma loop_stops:
  "\<not> passed_over net payload c \<or> post = [] \<Longrightarrow>
     requestWithFallback_loop net payload (c # post) lastError attempts
       = (attempts @ [c], settled_by net payload c)"
  by (auto simp: passed_over_def settled_by_def split: outcome.splits)

lemma loop_passes:
  "passed_over net payload c \<Longrightarrow> post \<noteq> [] \<Longrightarrow>
     \<exists>lastError'. requestWithFallback_loop net payload (c # post) lastError attempts
       = requestWithFallback_loop net payload post lastError' (attempts @ [c])"
  by (auto simp: passed_over_def split: outcome.splits)

lemma loop_reaches:
  "\<forall>x \<in> set pre. passed_over net payload x \<Longrightarrow> \<not> passed_over net payload c \<or> post = [] \<Longrightarrow>
     requestWithFallback_loop net payload (pre @ c # post) lastError attempts
       = (attempts @ pre @ [c], settled_by net payload c)"
proof (induction pre arbitrary: lastError attempts)
  case Nil
  then show ?case using loop_stops by simp
next
  case (Cons x pre)
  have "passed_over net payload x" using Cons.prems(1) by simp
  moreover have "pre @ c # post \<noteq> []" by simp
  ultimately obtain e where
    "requestWithFallback_loop net payload (x # pre @ c # post) lastError attempts
       = requestWithFallback_loop net payload (pre @ c # post) e (attempts @ [x])"
    using loop_passes by blast
  moreover have "requestWithFallback_loop net payload (pre @ c # post) e (attempts @ [x])
       = ((attempts @ [x]) @ pre @ [c], settled_by net payload c)"
    using Cons.IH Cons.prems by simp
  ultimately show ?case by simp
qed

lemma requestWithFallback_reaches:
  "\<forall>x \<in> set pre. passed_over net payload x \<Longrightarrow> \<not> passed_over net payload c \<or> post = [] \<Longrightarrow>
     requestWithFallback net (pre @ c # post) payload = (pre @ [c], settled_by net payload c)"
  using loop_reaches [of pre net payload c post None "[]"]
  by (simp add: requestWithFallback_def)

text \<open>A transport failure on a candidate that is not the last does not end the
  dispatch: the \<^verbatim>\<open>catch\<close> branch continues with the next candidate.
  Here the first candidate fails, the second answers 404 and the third answers 200, which is
  returned after three attempts.\<close>

theorem transport_failure_counterexample:
  "ex_net ex_c1 (adaptPayload ex_c1 ex_payload) = TransportError ''ECONNRESET''
   \<and> requestWithFallback ex_net [ex_c1, ex_c2, ex_c3] ex_payload
       = ([ex_c1, ex_c2, ex_c3], Inr (200, ''{}'', ex_c3))
   \<and> requestWithFallback ex_net [ex_c1, ex_c2, ex_c3] ex_payload
       \<noteq> ([ex_c1], Inl ''ECONNRESET'')"
  by (simp add: requestWithFallback_def ex_net_def ex_c1_def ex_c2_def ex_c3_def
      responses_url_def deployment_responses_url_def chat_completions_url_def)

text \<open>\<^bold>\<open>C1 (amended).\<close> The dispatcher attempts the candidates
  strictly in order. It passes over a candidate that is not the last when the candidate
  answers 404 or the request to it fails at the transport level; it stops at the first
  candidate that answers with any other status (200 or not), and at the last candidate
  whatever it does. Where it stops, a reply is returned with its status, body and candidate
  (a 404 on the last candidate included), and a transport failure is thrown. The attempts
  are exactly the candidates up to and including the one it stops at; so for a list of
  length two or more whose candidates all answer 404 except the last, the result comes from
  the last candidate after as many attempts as there are candidates.\<close>

theorem fallback_dispatch:
  assumes "\<forall>x \<in> set pre. passed_over net payload x"
    and "\<not> passed_over net payload c \<or> post = []"
  shows "requestWithFallback net (pre @ c # post) payload
           = (pre @ [c],
              case net c (adaptPayload c payload) of
                Response statusCode reply \<Rightarrow> Inr (statusCode, reply, c)
              | TransportError err \<Rightarrow> Inl err)"
  using requestWithFallback_reaches [OF assms] by (simp add: settled_by_def)

theorem fallback_dispatch_witness:
  "passed_over ex_net ex_payload ex_c1
   \<and> passed_over ex_net ex_payload ex_c2
   \<and> \<not> passed_over ex_net ex_payload ex_c3
   \<and> requestWithFallback ex_net ([ex_c1, ex_c2] @ ex_c3 # []) ex_payload
       = ([ex_c1, ex_c2] @ [ex_c3], Inr (200, ''{}'', ex_c3))
   \<and> requestWithFallback ex_busy ([] @ ex_c1 # [ex_c2, ex_c3]) ex_payload
       = ([] @ [ex_c1], Inr (429, ''rate limited'', ex_c1))"
proof -
  have p: "passed_over ex_net ex_payload ex_c1" "passed_over ex_net ex_payload ex_c2"
    "\<not> passed_over ex_net ex_payload ex_c3" "\<not> passed_over ex_busy ex_payload ex_c1"
    by (simp_all add: passed_over_def ex_net_def ex_busy_def ex_c1_def ex_c2_def ex_c3_def
        responses_url_def deployment_responses_url_def chat_completions_url_def)
  have a: "\<forall>x \<in> set [ex_c1, ex_c2]. passed_over ex_net ex_payload x"
    using p by simp
  have b: "\<forall>x \<in> set []. passed_over ex_busy ex_payload x"
    by simp
  have n: "ex_net ex_c3 (adaptPayload ex_c3 ex_payload) = Response 200 ''{}''"
    "ex_busy ex_c1 (adaptPayload ex_c1 ex_payload) = Response 429 ''rate limited''"
    by (simp_all add: ex_net_def ex_busy_def ex_c1_def ex_c2_def ex_c3_def
        responses_url_def deployment_responses_url_def chat_completions_url_def)
  show ?thesis
    using fallback_dispatch [of "[ex_c1, ex_c2]" ex_net ex_payload ex_c3 "[]", OF a]
      fallback_dispatch [of "[]" ex_busy ex_payload ex_c1 "[ex_c2, ex_c3]", OF b] p n
    by simp
qed

lemma requestWithFallback_empty:
  "requestWithFallback net [] payload = ([], Inl ''Azure request failed'')"
  by (simp add: requestWithFallback_def)

subsection \<open>Error replies\<close>

subsection \<open>The synthesized stream\<close>

lemma starts_append [simp]: "starts (a @ b) = starts a @ starts b"
  by (simp add: starts_def)

lemma stops_append [simp]: "stops (a @ b) = stops a @ stops b"
  by (simp add: stops_def)

lemma starts_Cons: "starts (e # es) = start_index e @ starts es"
  by (simp add: starts_def)

lemma stops_Cons: "stops (e # es) = stop_index e @ stops es"
  by (simp add: stops_def)

lemma starts_blockEvents: "starts (blockEvents rt k b) = [k]"
  by (cases b) (simp_all add: blockEvents_def starts_def)

lemma stops_blockEvents: "stops (blockEvents rt k b) = [k]"
  by (cases b) (simp_all add: blockEvents_def stops_def)

lemma starts_contentEvents: "starts (contentEvents rt k bs) = [k..<k + length bs]"
proof (induction bs arbitrary: k)
  case Nil
  then show ?case by (simp add: starts_def)
next
  case (Cons b bs)
  have "[k..<k + length (b # bs)] = k # [k + 1..<(k + 1) + length bs]"
    by (simp add: upt_rec)
  then show ?case using Cons.IH [of "k + 1"] by (simp add: starts_blockEvents)
qed

lemma stops_contentEvents: "stops (contentEvents rt k bs) = [k..<k + length bs]"
proof (induction bs arbitrary: k)
  case Nil
  then show ?case by (simp add: stops_def)
next
  case (Cons b bs)
  have "[k..<k + length (b # bs)] = k # [k + 1..<(k + 1) + length bs]"
    by (simp add: upt_rec)
  then show ?case using Cons.IH [of "k + 1"] by (simp add: stops_blockEvents)
qed

lemma follow_contentEvents:
  "deltas_follow_start seen tail \<Longrightarrow> (\<And>seen'. set seen \<subseteq> set seen' \<Longrightarrow> deltas_follow_start seen' tail)
     \<Longrightarrow> deltas_follow_start seen (contentEvents rt k bs @ tail)"
proof (induction bs arbitrary: k seen)
  case Nil
  then show ?case by simp
next
  case (Cons b bs)
  have "deltas_follow_start (k # seen) (contentEvents rt (k + 1) bs @ tail)"
  proof (rule Cons.IH)
    show "deltas_follow_start (k # seen) tail" using Cons.prems(2) [of "k # seen"] by auto
    show "set (k # seen) \<subseteq> set seen' \<Longrightarrow> deltas_follow_start seen' tail" for seen'
      using Cons.prems(2) [of seen'] by auto
  qed
  then show ?case by (cases b) (simp_all add: blockEvents_def)
qed

lemma contiguous_contentEvents:
  "\<forall>i \<in> set over. i < k \<Longrightarrow> (\<And>over'. deltas_contiguous None over' tail)
     \<Longrightarrow> deltas_contiguous None over (contentEvents rt k bs @ tail)"
proof (induction bs arbitrary: k over)
  case Nil
  then show ?case by simp
next
  case (Cons b bs)
  have "deltas_contiguous None (k # over) (contentEvents rt (k + 1) bs @ tail)"
  proof (rule Cons.IH)
    show "\<forall>i \<in> set (k # over). i < k + 1" using Cons.prems(1) by auto
    show "\<And>over'. deltas_contiguous None over' tail" using Cons.prems(2) .
  qed
  moreover have "k \<notin> set over" using Cons.prems(1) by auto
  ultimately show ?case by (cases b) (simp_all add: blockEvents_def)
qed

lemma stop_follows_contentEvents:
  "\<forall>i \<in> set stopped. i < k \<Longrightarrow> (\<And>stopped'. stop_follows_deltas stopped' tail)
     \<Longrightarrow> stop_follows_deltas stopped (contentEvents rt k bs @ tail)"
proof (induction bs arbitrary: k stopped)
  case Nil
  then show ?case by simp
next
  case (Cons b bs)
  have "stop_follows_deltas (k # stopped) (contentEvents rt (k + 1) bs @ tail)"
  proof (rule Cons.IH)
    show "\<forall>i \<in> set (k # stopped). i < k + 1" using Cons.prems(1) by auto
    show "\<And>stopped'. stop_follows_deltas stopped' tail" using Cons.prems(2) .
  qed
  moreover have "k \<notin> set stopped" using Cons.prems(1) by auto
  ultimately show ?case by (cases b) (simp_all add: blockEvents_def)
qed

lemma stop_precedes_contentEvents:
  "stop_precedes_later_start [] tail
     \<Longrightarrow> stop_precedes_later_start [] (contentEvents rt k bs @ tail)"
proof (induction bs arbitrary: k)
  case Nil
  then show ?case by simp
next
  case (Cons b bs)
  then show ?case by (cases b) (simp_all add: blockEvents_def)
qed

lemma no_end_contentEvents: "\<not> list_ex is_message_end (contentEvents rt k bs)"
proof (induction bs arbitrary: k)
  case Nil
  then show ?case by simp
next
  case (Cons b bs)
  then show ?case by (cases b) (simp_all add: blockEvents_def)
qed

lemma message_end_last_snoc:
  "\<not> list_ex is_message_end front \<Longrightarrow> message_end_last (front @ [MessageDelta r n, MessageStop])"
  by (simp add: message_end_last_def)

lemma well_ordered_writeError: "well_ordered (MessageStart msgId model # writeError message)"
  by (simp add: well_ordered_def writeError_def counts_match_def indices_increase_def
      starts_def stops_def message_end_last_def)

lemma well_ordered_empty:
  "well_ordered [MessageStart msgId model, ContentBlockStart 0 StartText, ContentBlockStop 0,
     MessageDelta r n, MessageStop]"
  by (simp add: well_ordered_def counts_match_def indices_increase_def
      starts_def stops_def message_end_last_def)

lemma well_ordered_contentEvents:
  "well_ordered (MessageStart msgId model # contentEvents rt 0 bs @ [MessageDelta r n, MessageStop])"
proof -
  let ?tail = "[MessageDelta r n, MessageStop]"
  let ?evs = "MessageStart msgId model # contentEvents rt 0 bs @ ?tail"
  have s: "starts ?evs = [0..<length bs]" "stops ?evs = [0..<length bs]"
    using starts_contentEvents [of rt 0 bs] stops_contentEvents [of rt 0 bs]
    by (simp_all add: starts_Cons stops_Cons starts_def stops_def)
  have 1: "counts_match ?evs" using s by (simp add: counts_match_def)
  have 2: "indices_increase ?evs" using s by (simp add: indices_increase_def)
  have 3: "deltas_follow_start [] ?evs"
    using follow_contentEvents [of "[]" ?tail rt 0 bs] by simp
  have 4: "deltas_contiguous None [] ?evs"
    using contiguous_contentEvents [of "[]" 0 ?tail rt bs] by simp
  have 5: "stop_follows_deltas [] ?evs"
    using stop_follows_contentEvents [of "[]" 0 ?tail rt bs] by simp
  have 6: "stop_precedes_later_start [] ?evs"
    using stop_precedes_contentEvents [of ?tail rt 0 bs] by simp
  have 7: "message_end_last ?evs"
    using message_end_last_snoc [of "MessageStart msgId model # contentEvents rt 0 bs" r n]
      no_end_contentEvents [of rt 0 bs] by simp
  show ?thesis
    unfolding well_ordered_def using 1 2 3 4 5 6 7 by blast
qed

lemma well_ordered_synthesized:
  "well_ordered (handleStreamingFromNonStreaming rt decode net msgId optionsList openaiReq model)"
  by (auto simp: handleStreamingFromNonStreaming_def Let_def well_ordered_writeError
      well_ordered_empty well_ordered_contentEvents split: sum.splits prod.splits)

subsection \<open>The native relay: invariants of the loop\<close>

lemma onToolCalls_preserves:
  assumes tool: "\<And>tc tr s s' out. I tr s \<Longrightarrow> onToolCall tc s = (s', out) \<Longrightarrow> I (tr @ out) s'"
    and "I tr s" and "onToolCalls tcs s = (s', out)"
  shows "I (tr @ out) s'"
  using assms(2,3)
proof (induction tcs arbitrary: tr s s' out)
  case Nil
  then show ?case by simp
next
  case (Cons tc tcs)
  obtain s1 out1 where 1: "onToolCall tc s = (s1, out1)" by (cases "onToolCall tc s")
  obtain s2 out2 where 2: "onToolCalls tcs s1 = (s2, out2)" by (cases "onToolCalls tcs s1")
  have "s' = s2" "out = out1 @ out2" using Cons.prems(2) 1 2 by simp_all
  moreover have "I ((tr @ out1) @ out2) s2"
    using Cons.IH [OF tool [OF Cons.prems(1) 1] 2] .
  ultimately show ?case by simp
qed

lemma onLine_preserves:
  assumes content: "\<And>d tr s s' out. I tr s \<Longrightarrow> onContent d s = (s', out) \<Longrightarrow> I (tr @ out) s'"
    and close: "\<And>tr s s' out. I tr s \<Longrightarrow> closeText s = (s', out) \<Longrightarrow> I (tr @ out) s'"
    and tool: "\<And>tc tr s s' out. I tr s \<Longrightarrow> onToolCall tc s = (s', out) \<Longrightarrow> I (tr @ out) s'"
    and fin: "\<And>tr s c. I tr s \<Longrightarrow> I tr (onFinishReason c s)"
    and usage: "\<And>tr s d. I tr s \<Longrightarrow> I tr (onUsage d s)"
    and "I tr s" and "onLine l s = (s', out)"
  shows "I (tr @ out) s'"
proof (cases l)
  case (Chunk data)
  show ?thesis
  proof (cases "c_choices data")
    case None
    then show ?thesis using assms(6,7) Chunk by (simp add: onLine_def)
  next
    case (Some choices)
    show ?thesis
    proof (cases choices)
      case Nil
      then show ?thesis using assms(6,7) Chunk Some by (simp add: onLine_def)
    next
      case (Cons choice others)
      define d where "d = (case sc_delta choice of
          None \<Rightarrow> \<lparr>d_content = None, d_tool_calls = None\<rparr> | Some d \<Rightarrow> d)"
      define s0 where "s0 = onFinishReason choice s"
      obtain s1 out1 where 1: "onContent d s0 = (s1, out1)" by (cases "onContent d s0")
      obtain s2 out2 where 2: "onToolCallsField d s1 = (s2, out2)"
        by (cases "onToolCallsField d s1")
      have r: "s' = onUsage data s2" "out = out1 @ out2"
        using assms(7) Chunk Some Cons 1 2 by (simp_all add: onLine_def d_def s0_def)
      have i0: "I tr s0" unfolding s0_def using fin assms(6) .
      have i1: "I (tr @ out1) s1" using content [OF i0 1] .
      have i2: "I ((tr @ out1) @ out2) s2"
      proof (cases "d_tool_calls d")
        case None
        then show ?thesis using 2 i1 by (simp add: onToolCallsField_def)
      next
        case (Some tcs)
        obtain s3 out3 where 3: "closeText s1 = (s3, out3)" by (cases "closeText s1")
        obtain s4 out4 where 4: "onToolCalls tcs s3 = (s4, out4)" by (cases "onToolCalls tcs s3")
        have "s2 = s4" "out2 = out3 @ out4"
          using 2 Some 3 4 by (simp_all add: onToolCallsField_def)
        moreover have "I (((tr @ out1) @ out3) @ out4) s4"
          using onToolCalls_preserves [where I = I, OF tool close [OF i1 3] 4] .
        ultimately show ?thesis by simp
      qed
      show ?thesis using usage [OF i2] r by simp
    qed
  qed
qed (use assms(6,7) in \<open>simp_all add: onLine_def\<close>)

lemma onLines_preserves:
  assumes content: "\<And>d tr s s' out. I tr s \<Longrightarrow> onContent d s = (s', out) \<Longrightarrow> I (tr @ out) s'"
    and close: "\<And>tr s s' out. I tr s \<Longrightarrow> closeText s = (s', out) \<Longrightarrow> I (tr @ out) s'"
    and tool: "\<And>tc tr s s' out. I tr s \<Longrightarrow> onToolCall tc s = (s', out) \<Longrightarrow> I (tr @ out) s'"
    and fin: "\<And>tr s c. I tr s \<Longrightarrow> I tr (onFinishReason c s)"
    and usage: "\<And>tr s d. I tr s \<Longrightarrow> I tr (onUsage d s)"
    and "I tr s" and "onLines ls s = (s', out)"
  shows "I (tr @ out) s'"
  using assms(6,7)
proof (induction ls arbitrary: tr s s' out)
  case Nil
  then show ?case by simp
next
  case (Cons l ls)
  obtain s1 out1 where 1: "onLine l s = (s1, out1)" by (cases "onLine l s")
  obtain s2 out2 where 2: "onLines ls s1 = (s2, out2)" by (cases "onLines ls s1")
  have "s' = s2" "out = out1 @ out2" using Cons.prems(2) 1 2 by simp_all
  moreover have "I (tr @ out1) s1"
    using onLine_preserves [where I = I, OF content close tool fin usage Cons.prems(1) 1] .
  then have "I ((tr @ out1) @ out2) s2" using Cons.IH 2 by blast
  ultimately show ?case by simp
qed

lemma onFinishReason_fields [simp]:
  "textBlockStarted (onFinishReason c s) = textBlockStarted s"
  "currentBlockIndex (onFinishReason c s) = currentBlockIndex s"
  "toolBlocksStarted (onFinishReason c s) = toolBlocksStarted s"
  "outputTokens (onFinishReason c s) = outputTokens s"
  by (simp_all add: onFinishReason_def)

lemma onUsage_fields [simp]:
  "textBlockStarted (onUsage d s) = textBlockStarted s"
  "currentBlockIndex (onUsage d s) = currentBlockIndex s"
  "toolBlocksStarted (onUsage d s) = toolBlocksStarted s"
  "finishReason (onUsage d s) = finishReason s"
  by (simp_all add: onUsage_def split: option.splits)

lemma count_inv_onLines:
  assumes "count_inv tr s" and "onLines ls s = (s', out)"
  shows "count_inv (tr @ out) s'"
proof (rule onLines_preserves [where I = count_inv, OF _ _ _ _ _ assms])
  show "count_inv (tr @ out) s'" if "count_inv tr s" "onContent d s = (s', out)" for d tr s s' out
    using that by (auto simp: count_inv_def onContent_def starts_def stops_def split: if_splits)
  show "count_inv (tr @ out) s'" if "count_inv tr s" "closeText s = (s', out)" for tr s s' out
    using that by (auto simp: count_inv_def closeText_def starts_def stops_def split: if_splits)
  show "count_inv (tr @ out) s'" if "count_inv tr s" "onToolCall tc s = (s', out)" for tc tr s s' out
    using that by (auto simp: count_inv_def onToolCall_def Let_def starts_def stops_def split: if_splits)
  show "count_inv tr (onFinishReason c s)" if "count_inv tr s" for tr s c
    using that by (simp add: count_inv_def)
  show "count_inv tr (onUsage d s)" if "count_inv tr s" for tr s d
    using that by (simp add: count_inv_def)
qed

lemma starts_simps [simp]:
  "starts [] = []"
  "starts (ContentBlockStart i b # es) = i # starts es"
  "starts (ContentBlockDelta i d # es) = starts es"
  "starts (ContentBlockStop i # es) = starts es"
  "starts (MessageStart m c # es) = starts es"
  "starts (MessageDelta r n # es) = starts es"
  "starts (MessageStop # es) = starts es"
  by (simp_all add: starts_def)

lemma stops_simps [simp]:
  "stops [] = []"
  "stops (ContentBlockStart i b # es) = stops es"
  "stops (ContentBlockDelta i d # es) = stops es"
  "stops (ContentBlockStop i # es) = i # stops es"
  "stops (MessageStart m c # es) = stops es"
  "stops (MessageDelta r n # es) = stops es"
  "stops (MessageStop # es) = stops es"
  by (simp_all add: stops_def)

lemma tool_starts_simps [simp]:
  "tool_starts [] = []"
  "tool_starts (ContentBlockStart i (StartToolUse ident name) # es) = i # tool_starts es"
  "tool_starts (ContentBlockStart i StartText # es) = tool_starts es"
  "tool_starts (ContentBlockDelta i d # es) = tool_starts es"
  "tool_starts (ContentBlockStop i # es) = tool_starts es"
  "tool_starts (a @ b) = tool_starts a @ tool_starts b"
  by (simp_all add: tool_starts_def)

text \<open>What one step of the relay writes and changes.\<close>

lemma onContent_cases:
  assumes "onContent d s = (s', out)"
  shows "currentBlockIndex s' = currentBlockIndex s \<and> toolBlocksStarted s' = toolBlocksStarted s
    \<and> ((s' = s \<and> out = [])
       \<or> (textBlockStarted s \<and> s' = s
          \<and> (\<exists>t. out = [ContentBlockDelta (currentBlockIndex s) (TextDelta t)]))
       \<or> (\<not> textBlockStarted s \<and> textBlockStarted s'
          \<and> (\<exists>t. out = [ContentBlockStart (currentBlockIndex s) StartText,
                         ContentBlockDelta (currentBlockIndex s) (TextDelta t)])))"
  using assms by (auto simp: onContent_def split: if_splits)

lemma closeText_cases:
  assumes "closeText s = (s', out)"
  shows "toolBlocksStarted s' = toolBlocksStarted s
    \<and> ((s' = s \<and> out = [] \<and> \<not> (textBlockStarted s \<and> toolBlocksStarted s = []))
       \<or> (textBlockStarted s \<and> toolBlocksStarted s = [] \<and> \<not> textBlockStarted s'
          \<and> currentBlockIndex s' = currentBlockIndex s + 1
          \<and> out = [ContentBlockStop (currentBlockIndex s)]))"
  using assms by (auto simp: closeText_def split: if_splits)

lemma onToolCall_cases:
  assumes "onToolCall tc s = (s', out)"
  shows "textBlockStarted s' = textBlockStarted s \<and> currentBlockIndex s' = currentBlockIndex s
    \<and> (\<exists>i. currentBlockIndex s \<le> i
         \<and> ((i \<notin> set (toolBlocksStarted s) \<and> toolBlocksStarted s' = toolBlocksStarted s @ [i]
             \<and> (\<exists>ident name. out = [ContentBlockStart i (StartToolUse ident name)]
                  \<or> (\<exists>a. out = [ContentBlockStart i (StartToolUse ident name),
                                 ContentBlockDelta i (InputJsonDelta a)])))
            \<or> (toolBlocksStarted s' = toolBlocksStarted s
               \<and> (out = [] \<or> (i \<in> set (toolBlocksStarted s)
                     \<and> (\<exists>a. out = [ContentBlockDelta i (InputJsonDelta a)]))))))"
proof -
  define i where "i = currentBlockIndex s + (case tcd_index tc of None \<Rightarrow> 0 | Some i \<Rightarrow> i)"
  have le: "currentBlockIndex s \<le> i" by (simp add: i_def)
  show ?thesis
    using assms le unfolding onToolCall_def Let_def i_def [symmetric]
    by (intro conjI exI [of _ i]) (auto split: if_splits)
qed

lemma block_events_only_onLines:
  assumes "block_events_only tr s" and "onLines ls s = (s', out)"
  shows "block_events_only (tr @ out) s'"
proof (rule onLines_preserves [where I = block_events_only, OF _ _ _ _ _ assms])
  show "block_events_only (tr @ out) s'" if "block_events_only tr s" "onContent d s = (s', out)" for d tr s s' out
    using that(1) onContent_cases [OF that(2)]
    by (auto simp: block_events_only_def )
  show "block_events_only (tr @ out) s'" if "block_events_only tr s" "closeText s = (s', out)" for tr s s' out
    using that(1) closeText_cases [OF that(2)]
    by (auto simp: block_events_only_def )
  show "block_events_only (tr @ out) s'" if "block_events_only tr s" "onToolCall tc s = (s', out)" for tc tr s s' out
    using that(1) onToolCall_cases [OF that(2)]
    by (auto simp: block_events_only_def )
qed (simp_all add: block_events_only_def)

lemma tools_inv_onLines:
  assumes "tools_inv tr s" and "onLines ls s = (s', out)"
  shows "tools_inv (tr @ out) s'"
proof (rule onLines_preserves [where I = tools_inv, OF _ _ _ _ _ assms])
  show "tools_inv (tr @ out) s'" if "tools_inv tr s" "onContent d s = (s', out)" for d tr s s' out
    using that(1) onContent_cases [OF that(2)]
    by (auto simp: tools_inv_def )
  show "tools_inv (tr @ out) s'" if "tools_inv tr s" "closeText s = (s', out)" for tr s s' out
    using that(1) closeText_cases [OF that(2)]
    by (auto simp: tools_inv_def )
  show "tools_inv (tr @ out) s'" if "tools_inv tr s" "onToolCall tc s = (s', out)" for tc tr s s' out
    using that(1) onToolCall_cases [OF that(2)]
    by (auto simp: tools_inv_def )
qed (simp_all add: tools_inv_def)

lemma follow_append:
  "deltas_follow_start seen (a @ b)
     = (deltas_follow_start seen a \<and> deltas_follow_start (rev (starts a) @ seen) b)"
  by (induction seen a rule: deltas_follow_start.induct) simp_all

lemma follow_no_delta: "\<not> list_ex is_delta es \<Longrightarrow> deltas_follow_start seen es"
  by (induction seen es rule: deltas_follow_start.induct) simp_all

lemma follow_inv_onLines:
  assumes "follow_inv tr s" and "onLines ls s = (s', out)"
  shows "follow_inv (tr @ out) s'"
proof (rule onLines_preserves [where I = follow_inv, OF _ _ _ _ _ assms])
  show "follow_inv (tr @ out) s'" if "follow_inv tr s" "onContent d s = (s', out)" for d tr s s' out
    using that(1) onContent_cases [OF that(2)]
    by (auto simp: follow_inv_def follow_append)
  show "follow_inv (tr @ out) s'" if "follow_inv tr s" "closeText s = (s', out)" for tr s s' out
    using that(1) closeText_cases [OF that(2)]
    by (auto simp: follow_inv_def follow_append)
  show "follow_inv (tr @ out) s'" if "follow_inv tr s" "onToolCall tc s = (s', out)" for tc tr s s' out
    using that(1) onToolCall_cases [OF that(2)]
    by (auto simp: follow_inv_def follow_append)
qed (simp_all add: follow_inv_def)

lemma stop_follows_append:
  "stop_follows_deltas stopped (a @ b)
     = (stop_follows_deltas stopped a \<and> stop_follows_deltas (rev (stops a) @ stopped) b)"
  by (induction stopped a rule: stop_follows_deltas.induct) simp_all

lemma stop_follows_no_delta: "\<not> list_ex is_delta es \<Longrightarrow> stop_follows_deltas stopped es"
  by (induction stopped es rule: stop_follows_deltas.induct) simp_all

lemma stop_inv_onLines:
  assumes "stop_inv tr s" and "onLines ls s = (s', out)"
  shows "stop_inv (tr @ out) s'"
proof (rule onLines_preserves [where I = stop_inv, OF _ _ _ _ _ assms])
  show "stop_inv (tr @ out) s'" if "stop_inv tr s" "onContent d s = (s', out)" for d tr s s' out
    using that(1) onContent_cases [OF that(2)]
    by (auto simp: stop_inv_def stop_follows_append less_Suc_eq)
  show "stop_inv (tr @ out) s'" if "stop_inv tr s" "closeText s = (s', out)" for tr s s' out
    using that(1) closeText_cases [OF that(2)]
    by (auto simp: stop_inv_def stop_follows_append less_Suc_eq)
  show "stop_inv (tr @ out) s'" if "stop_inv tr s" "onToolCall tc s = (s', out)" for tc tr s s' out
    using that(1) onToolCall_cases [OF that(2)]
    by (fastforce simp: stop_inv_def stop_follows_append)
qed (simp_all add: stop_inv_def)

lemma still_open_append: "still_open opn (a @ b) = still_open (still_open opn a) b"
  by (induction opn a rule: still_open.induct) simp_all

lemma open_inv_onLines:
  assumes "open_inv tr s" and "onLines ls s = (s', out)"
  shows "open_inv (tr @ out) s'"
proof (rule onLines_preserves [where I = open_inv, OF _ _ _ _ _ assms])
  show "open_inv (tr @ out) s'" if "open_inv tr s" "onContent d s = (s', out)" for d tr s s' out
    using that(1) onContent_cases [OF that(2)]
    by (auto simp: open_inv_def still_open_append)
  show "open_inv (tr @ out) s'" if "open_inv tr s" "closeText s = (s', out)" for tr s s' out
    using that(1) closeText_cases [OF that(2)]
    by (auto simp: open_inv_def still_open_append)
  show "open_inv (tr @ out) s'" if "open_inv tr s" "onToolCall tc s = (s', out)" for tc tr s s' out
    using that(1) onToolCall_cases [OF that(2)]
    by (auto simp: open_inv_def still_open_append)
qed (simp_all add: open_inv_def)

subsection \<open>The native relay: what a line changes\<close>

lemma onContent_frame [simp]:
  "finishReason (fst (onContent d s)) = finishReason s"
  "outputTokens (fst (onContent d s)) = outputTokens s"
  by (simp_all add: onContent_def)

lemma closeText_frame [simp]:
  "finishReason (fst (closeText s)) = finishReason s"
  "outputTokens (fst (closeText s)) = outputTokens s"
  by (simp_all add: closeText_def)

lemma onToolCall_frame [simp]:
  "finishReason (fst (onToolCall tc s)) = finishReason s"
  "outputTokens (fst (onToolCall tc s)) = outputTokens s"
  "textBlockStarted (fst (onToolCall tc s)) = textBlockStarted s"
  "currentBlockIndex (fst (onToolCall tc s)) = currentBlockIndex s"
  by (simp_all add: onToolCall_def Let_def)

lemma onToolCalls_frame [simp]:
  "finishReason (fst (onToolCalls tcs s)) = finishReason s"
  "outputTokens (fst (onToolCalls tcs s)) = outputTokens s"
  "textBlockStarted (fst (onToolCalls tcs s)) = textBlockStarted s"
  "currentBlockIndex (fst (onToolCalls tcs s)) = currentBlockIndex s"
  by (induction tcs arbitrary: s; simp add: split_def Let_def)+

lemma onToolCallsField_frame [simp]:
  "finishReason (fst (onToolCallsField d s)) = finishReason s"
  "outputTokens (fst (onToolCallsField d s)) = outputTokens s"
  by (simp_all add: onToolCallsField_def split_def Let_def split: option.splits)

lemma onLine_no_delta: "line_delta l = None \<Longrightarrow> onLine l s = (s, [])"
  by (auto simp: line_delta_def onLine_def split: sse_line.splits option.splits list.splits)

lemma onLine_delta:
  assumes "line_delta l = Some d"
  shows "\<exists>choice data.
     onLine l s =
       (onUsage data (fst (onToolCallsField d (fst (onContent d (onFinishReason choice s))))),
        snd (onContent d (onFinishReason choice s))
        @ snd (onToolCallsField d (fst (onContent d (onFinishReason choice s)))))"
  using assms
  by (auto simp: line_delta_def onLine_def split_def Let_def
      split: sse_line.splits option.splits list.splits; blast)

lemma onLine_finishReason:
  "finishReason (fst (onLine l s))
     = (case reported_finish l of None \<Rightarrow> finishReason s | Some f \<Rightarrow> stop_reason_of f)"
  by (auto simp: onLine_def reported_finish_def split_def Let_def onFinishReason_def
      stop_reason_of_def str_truthy_def split: sse_line.splits option.splits list.splits)

lemma onLine_outputTokens:
  "outputTokens (fst (onLine l s))
     = (case reported_tokens l of None \<Rightarrow> outputTokens s | Some n \<Rightarrow> n)"
  by (auto simp: onLine_def reported_tokens_def split_def Let_def onUsage_def num_or_def
      split: sse_line.splits option.splits list.splits)

lemma onLines_finishReason:
  "finishReason (fst (onLines ls s))
     = (let fs = List.map_filter reported_finish ls
        in if fs = [] then finishReason s else stop_reason_of (last fs))"
proof (induction ls arbitrary: s)
  case Nil
  then show ?case by (simp add: List.map_filter_simps)
next
  case (Cons l ls)
  have "finishReason (fst (onLines (l # ls) s)) = finishReason (fst (onLines ls (fst (onLine l s))))"
    by (simp add: split_def Let_def)
  then show ?case
    using Cons.IH [of "fst (onLine l s)"]
    by (simp add: onLine_finishReason List.map_filter_simps Let_def split: option.splits)
qed

lemma onLines_outputTokens:
  "outputTokens (fst (onLines ls s))
     = (let ns = List.map_filter reported_tokens ls
        in if ns = [] then outputTokens s else last ns)"
proof (induction ls arbitrary: s)
  case Nil
  then show ?case by (simp add: List.map_filter_simps)
next
  case (Cons l ls)
  have "outputTokens (fst (onLines (l # ls) s)) = outputTokens (fst (onLines ls (fst (onLine l s))))"
    by (simp add: split_def Let_def)
  then show ?case
    using Cons.IH [of "fst (onLine l s)"]
    by (simp add: onLine_outputTokens List.map_filter_simps Let_def split: option.splits)
qed

lemma final_state_reports:
  "finishReason (fst (onLines ls initial_state)) = mapped_stop_reason ls"
  "outputTokens (fst (onLines ls initial_state)) = final_output_tokens ls"
  by (simp_all add: onLines_finishReason onLines_outputTokens mapped_stop_reason_def
      final_output_tokens_def initial_state_def Let_def)

subsection \<open>The native relay: the end of the stream\<close>

lemma onEnd_closing:
  "onEnd s = closing s @ [MessageDelta (StopReason (finishReason s)) (outputTokens s), MessageStop]"
  by (simp add: onEnd_def closing_def)

lemma handleStreaming_ended:
  assumes "onLines lines initial_state = (s, out)"
  shows "handleStreaming msgId model (Reply 200 errorBody lines Ended)
           = (MessageStart msgId model # out @ closing s
                @ [MessageDelta (StopReason (mapped_stop_reason lines)) (final_output_tokens lines),
                   MessageStop], Resolved)"
  using assms final_state_reports [of lines]
  by (simp add: handleStreaming_def onEnd_closing)

lemma loop_invariants:
  assumes "onLines lines initial_state = (s, out)"
  shows "count_inv out s" "block_events_only out s" "tools_inv out s" "follow_inv out s"
    "stop_inv out s" "open_inv out s"
proof -
  have "count_inv [] initial_state" "block_events_only [] initial_state"
    "tools_inv [] initial_state" "follow_inv [] initial_state" "stop_inv [] initial_state"
    "open_inv [] initial_state"
    by (simp_all add: count_inv_def block_events_only_def tools_inv_def follow_inv_def
        stop_inv_def open_inv_def initial_state_def)
  then show "count_inv out s" "block_events_only out s" "tools_inv out s" "follow_inv out s"
    "stop_inv out s" "open_inv out s"
    using count_inv_onLines [OF _ assms, of "[]"] block_events_only_onLines [OF _ assms, of "[]"]
      tools_inv_onLines [OF _ assms, of "[]"] follow_inv_onLines [OF _ assms, of "[]"]
      stop_inv_onLines [OF _ assms, of "[]"] open_inv_onLines [OF _ assms, of "[]"]
    by simp_all
qed

lemma still_open_stops:
  "mset (still_open opn (map ContentBlockStop xs)) = mset opn - mset xs"
  by (induction xs arbitrary: opn) simp_all

lemma closing_no_end: "\<not> list_ex is_message_end (closing s)"
  by (auto simp: closing_def list_ex_iff)

lemma closing_no_delta: "\<not> list_ex is_delta (closing s)"
  by (auto simp: closing_def list_ex_iff)

text \<open>After the closing events every block is closed, but for a text block that was
  started at the index of a tool block: the two get one stop.\<close>

lemma closing_stops_open:
  assumes "open_inv out s"
  shows "still_open [] (out @ closing s)
           = (if textBlockStarted s \<and> currentBlockIndex s \<in> set (toolBlocksStarted s)
              then [currentBlockIndex s] else [])"
proof -
  let ?O = "still_open [] out"
  have O: "mset ?O = mset (toolBlocksStarted s)
      + (if textBlockStarted s then {#currentBlockIndex s#} else {#})"
    using assms by (simp add: open_inv_def)
  have "mset (still_open ?O (closing s))
      = (if textBlockStarted s \<and> currentBlockIndex s \<in> set (toolBlocksStarted s)
         then {#currentBlockIndex s#} else {#})"
  proof (cases "\<not> textBlockStarted s \<and> toolBlocksStarted s = []")
    case True
    then have "?O = []" using O by simp
    then show ?thesis using True by (simp add: closing_def)
  next
    case False
    show ?thesis
    proof (cases "textBlockStarted s \<and> currentBlockIndex s \<notin> set (toolBlocksStarted s)")
      case True
      then have "closing s = ContentBlockStop (currentBlockIndex s)
          # map ContentBlockStop (toolBlocksStarted s)"
        by (simp add: closing_def)
      then show ?thesis using O True by (simp add: still_open_stops)
    next
      case no_text: False
      then have "closing s = map ContentBlockStop (toolBlocksStarted s)"
        using False by (auto simp: closing_def)
      then show ?thesis using O no_text by (auto simp: still_open_stops)
    qed
  qed
  then have "mset (still_open [] (out @ closing s))
      = mset (if textBlockStarted s \<and> currentBlockIndex s \<in> set (toolBlocksStarted s)
              then [currentBlockIndex s] else [])"
    by (simp add: still_open_append)
  then show ?thesis
    by (simp split: if_splits)
qed

lemma closing_when_none_started:
  assumes "follow_inv out s" and "starts out = []"
  shows "closing s = [ContentBlockStart 0 StartText, ContentBlockStop 0]"
  using assms by (auto simp: follow_inv_def closing_def)

lemma some_block_started:
  assumes "follow_inv out s"
  shows "starts (out @ closing s) \<noteq> []"
proof (cases "starts out = []")
  case True
  then show ?thesis using closing_when_none_started [OF assms] by simp
next
  case False
  then show ?thesis by simp
qed

subsection \<open>The native relay: ordering of the stream\<close>

lemma message_end_last_native:
  assumes "block_events_only out s"
  shows "message_end_last (MessageStart msgId model # out @ closing s @ [MessageDelta r n, MessageStop])"
  using message_end_last_snoc [of "MessageStart msgId model # out @ closing s" r n]
    assms closing_no_end [of s]
  by (simp add: block_events_only_def)

lemma follow_native:
  assumes "follow_inv out s"
  shows "deltas_follow_start [] (MessageStart msgId model # out @ closing s @ [MessageDelta r n, MessageStop])"
  using assms closing_no_delta [of s]
  by (simp add: follow_inv_def follow_append follow_no_delta)

lemma stop_follows_native:
  assumes "stop_inv out s"
  shows "stop_follows_deltas [] (MessageStart msgId model # out @ closing s @ [MessageDelta r n, MessageStop])"
  using assms closing_no_delta [of s]
  by (simp add: stop_inv_def stop_follows_append stop_follows_no_delta)

lemma starts_closing:
  "starts (closing s) = (if \<not> textBlockStarted s \<and> toolBlocksStarted s = [] then [0] else [])"
  by (induction "toolBlocksStarted s") (auto simp: closing_def starts_def)

lemma starts_map_stop [simp]: "starts (map ContentBlockStop xs) = []"
  by (induction xs) simp_all

lemma stops_map_stop [simp]: "stops (map ContentBlockStop xs) = xs"
  by (induction xs) simp_all

lemma tool_starts_map_stop [simp]: "tool_starts (map ContentBlockStop xs) = []"
  by (induction xs) simp_all

lemma tool_starts_message [simp]:
  "tool_starts (MessageStart m c # es) = tool_starts es"
  "tool_starts (MessageDelta r n # es) = tool_starts es"
  "tool_starts (MessageStop # es) = tool_starts es"
  by (simp_all add: tool_starts_def)

lemma tool_starts_closing: "tool_starts (closing s) = []"
  by (auto simp: closing_def)

lemma counts_native:
  assumes "count_inv out s" and "textBlockStarted s \<longrightarrow> toolBlocksStarted s = []"
  shows "counts_match (MessageStart msgId model # out @ closing s @ [MessageDelta r n, MessageStop])"
  using assms by (auto simp: counts_match_def count_inv_def closing_def)

lemma tool_stops_native:
  assumes "tools_inv out s"
    and "tool_starts (MessageStart msgId model # out @ closing s @ [MessageDelta r n, MessageStop]) \<noteq> []"
  shows "\<exists>pre. MessageStart msgId model # out @ closing s @ [MessageDelta r n, MessageStop]
     = pre @ map ContentBlockStop
         (tool_starts (MessageStart msgId model # out @ closing s @ [MessageDelta r n, MessageStop]))
       @ [MessageDelta r n, MessageStop]"
proof -
  let ?E = "MessageStart msgId model # out @ closing s @ [MessageDelta r n, MessageStop]"
  have t: "tool_starts ?E = toolBlocksStarted s"
    using assms(1) by (simp add: tools_inv_def tool_starts_closing)
  then have ne: "toolBlocksStarted s \<noteq> []" using assms(2) by simp
  have "?E = (MessageStart msgId model # out
      @ (if textBlockStarted s \<and> currentBlockIndex s \<notin> set (toolBlocksStarted s)
         then [ContentBlockStop (currentBlockIndex s)] else []))
      @ map ContentBlockStop (toolBlocksStarted s) @ [MessageDelta r n, MessageStop]"
    using ne by (simp add: closing_def)
  then show ?thesis unfolding t by blast
qed

lemma onLine_tbs_no_content:
  assumes "\<not> has_content l" and "textBlockStarted (fst (onLine l s))"
  shows "textBlockStarted s"
proof (cases "line_delta l")
  case None
  then show ?thesis using assms(2) by (simp add: onLine_no_delta)
next
  case (Some d)
  then have nc: "\<not> str_truthy (d_content d)" using assms(1) by (simp add: has_content_def)
  obtain choice data where "onLine l s =
       (onUsage data (fst (onToolCallsField d (fst (onContent d (onFinishReason choice s))))),
        snd (onContent d (onFinishReason choice s))
        @ snd (onToolCallsField d (fst (onContent d (onFinishReason choice s)))))"
    using onLine_delta [OF Some] by blast
  then show ?thesis
    using assms(2) nc
    by (auto simp: onContent_def onToolCallsField_def closeText_def split_def Let_def
        split: option.splits if_splits)
qed

lemma onToolCallsField_none: "d_tool_calls d = None \<Longrightarrow> onToolCallsField d s = (s, [])"
  by (simp add: onToolCallsField_def)

lemma onLine_started_no_tools:
  assumes "\<not> has_tool_calls l"
  shows "toolBlocksStarted (fst (onLine l s)) = toolBlocksStarted s"
proof (cases "line_delta l")
  case None
  then show ?thesis by (simp add: onLine_no_delta)
next
  case (Some d)
  then have nt: "d_tool_calls d = None" using assms by (simp add: has_tool_calls_def)
  obtain choice data where "onLine l s =
       (onUsage data (fst (onToolCallsField d (fst (onContent d (onFinishReason choice s))))),
        snd (onContent d (onFinishReason choice s))
        @ snd (onToolCallsField d (fst (onContent d (onFinishReason choice s)))))"
    using onLine_delta [OF Some] by blast
  then show ?thesis
    using nt by (simp add: onToolCallsField_none onContent_def)
qed

lemma onLine_tools_close_text:
  assumes "has_tool_calls l" and "toolBlocksStarted s = []"
  shows "\<not> textBlockStarted (fst (onLine l s))"
proof (cases "line_delta l")
  case None
  then show ?thesis using assms(1) by (simp add: has_tool_calls_def)
next
  case (Some d)
  then obtain tcs where tc: "d_tool_calls d = Some tcs"
    using assms(1) by (auto simp: has_tool_calls_def)
  obtain choice data where "onLine l s =
       (onUsage data (fst (onToolCallsField d (fst (onContent d (onFinishReason choice s))))),
        snd (onContent d (onFinishReason choice s))
        @ snd (onToolCallsField d (fst (onContent d (onFinishReason choice s)))))"
    using onLine_delta [OF Some] by blast
  then show ?thesis
    using tc assms(2)
    by (simp add: onToolCallsField_def split_def Let_def closeText_def onContent_def)
qed

lemma text_before_tools_state:
  assumes "text_before_tools ls"
    and "toolBlocksStarted s \<noteq> [] \<longrightarrow> \<not> textBlockStarted s \<and> \<not> list_ex has_content ls"
  shows "toolBlocksStarted (fst (onLines ls s)) \<noteq> [] \<longrightarrow> \<not> textBlockStarted (fst (onLines ls s))"
  using assms
proof (induction ls arbitrary: s)
  case Nil
  then show ?case by simp
next
  case (Cons l ls)
  let ?s1 = "fst (onLine l s)"
  have step: "fst (onLines (l # ls) s) = fst (onLines ls ?s1)"
    by (simp add: split_def Let_def)
  have tb: "text_before_tools ls" using Cons.prems(1) by simp
  have "toolBlocksStarted ?s1 \<noteq> [] \<longrightarrow> \<not> textBlockStarted ?s1 \<and> \<not> list_ex has_content ls"
  proof
    assume ne: "toolBlocksStarted ?s1 \<noteq> []"
    show "\<not> textBlockStarted ?s1 \<and> \<not> list_ex has_content ls"
    proof (cases "toolBlocksStarted s = []")
      case True
      then have ht: "has_tool_calls l" using ne onLine_started_no_tools [of l s] by auto
      then have "\<not> list_ex has_content ls" using Cons.prems(1) by simp
      then show ?thesis using onLine_tools_close_text [OF ht True] by simp
    next
      case False
      then have "\<not> textBlockStarted s" "\<not> has_content l" "\<not> list_ex has_content ls"
        using Cons.prems(2) by simp_all
      then show ?thesis using onLine_tbs_no_content [of l s] by blast
    qed
  qed
  then show ?case using Cons.IH [OF tb, of ?s1] step by simp
qed

lemma text_before_tools_final:
  assumes "text_before_tools lines" and "onLines lines initial_state = (s, out)"
  shows "textBlockStarted s \<longrightarrow> toolBlocksStarted s = []"
  using text_before_tools_state [OF assms(1), of initial_state] assms(2)
  by (auto simp: initial_state_def)

lemma onLine_text_only:
  assumes "\<not> has_tool_calls l" and "text_only_shape tr s" and "onLine l s = (s', out)"
  shows "text_only_shape (tr @ out) s'"
proof (cases "line_delta l")
  case None
  then show ?thesis using assms(2,3) by (simp add: onLine_no_delta)
next
  case (Some d)
  then have nt: "d_tool_calls d = None" using assms(1) by (simp add: has_tool_calls_def)
  obtain choice data where "onLine l s =
       (onUsage data (fst (onToolCallsField d (fst (onContent d (onFinishReason choice s))))),
        snd (onContent d (onFinishReason choice s))
        @ snd (onToolCallsField d (fst (onContent d (onFinishReason choice s)))))"
    using onLine_delta [OF Some] by blast
  then have r: "s' = onUsage data (fst (onContent d (onFinishReason choice s)))"
    "out = snd (onContent d (onFinishReason choice s))"
    using assms(3) nt by (simp_all add: onToolCallsField_none)
  have st: "currentBlockIndex s' = currentBlockIndex s" "toolBlocksStarted s' = toolBlocksStarted s"
    "textBlockStarted s' = (textBlockStarted s \<or> str_truthy (d_content d))"
    using r by (auto simp: onContent_def)
  show ?thesis
  proof (cases "str_truthy (d_content d)")
    case False
    then have "out = []" using r by (simp add: onContent_def)
    then show ?thesis using st False assms(2) by (simp add: text_only_shape_def)
  next
    case True
    have c0: "currentBlockIndex s = 0" "toolBlocksStarted s = []"
      using assms(2) by (simp_all add: text_only_shape_def)
    show ?thesis
    proof (cases "textBlockStarted s")
      case False
      then have "tr = []" using assms(2) by (simp add: text_only_shape_def)
      moreover have "out = [ContentBlockStart 0 StartText,
          ContentBlockDelta 0 (TextDelta (the (d_content d)))]"
        using r True False c0 by (simp add: onContent_def)
      ultimately have "tr @ out = ContentBlockStart 0 StartText
          # map (ContentBlockDelta 0) [TextDelta (the (d_content d))]"
        by simp
      then have "\<exists>ds. tr @ out = ContentBlockStart 0 StartText # map (ContentBlockDelta 0) ds"
        by blast
      then show ?thesis using st True c0 by (simp add: text_only_shape_def)
    next
      case started: True
      then obtain ds where "tr = ContentBlockStart 0 StartText # map (ContentBlockDelta 0) ds"
        using assms(2) by (auto simp: text_only_shape_def)
      moreover have "out = [ContentBlockDelta 0 (TextDelta (the (d_content d)))]"
        using r True started c0 by (simp add: onContent_def)
      ultimately have "tr @ out = ContentBlockStart 0 StartText
          # map (ContentBlockDelta 0) (ds @ [TextDelta (the (d_content d))])"
        by simp
      then have "\<exists>ds. tr @ out = ContentBlockStart 0 StartText # map (ContentBlockDelta 0) ds"
        by blast
      then show ?thesis using st True c0 by (simp add: text_only_shape_def)
    qed
  qed
qed

lemma onLines_text_only:
  assumes "\<not> list_ex has_tool_calls ls" and "text_only_shape tr s" and "onLines ls s = (s', out)"
  shows "text_only_shape (tr @ out) s'"
  using assms
proof (induction ls arbitrary: tr s s' out)
  case Nil
  then show ?case by simp
next
  case (Cons l ls)
  obtain s1 out1 where 1: "onLine l s = (s1, out1)" by (cases "onLine l s")
  obtain s2 out2 where 2: "onLines ls s1 = (s2, out2)" by (cases "onLines ls s1")
  have r: "s' = s2" "out = out1 @ out2" using Cons.prems(3) 1 2 by simp_all
  have nl: "\<not> has_tool_calls l" "\<not> list_ex has_tool_calls ls"
    using Cons.prems(1) by simp_all
  have sh1: "text_only_shape (tr @ out1) s1"
    using onLine_text_only [OF nl(1) Cons.prems(2) 1] .
  have "text_only_shape ((tr @ out1) @ out2) s2"
    using Cons.IH [OF nl(2) sh1 2] .
  then show ?case using r by simp
qed

lemma starts_map_delta [simp]: "starts (map (ContentBlockDelta i) ds) = []"
  by (induction ds) simp_all

lemma stops_map_delta [simp]: "stops (map (ContentBlockDelta i) ds) = []"
  by (induction ds) simp_all

lemma follow_map_delta:
  "i \<in> set seen \<Longrightarrow> deltas_follow_start seen (map (ContentBlockDelta i) ds @ es)
     = deltas_follow_start seen es"
  by (induction ds) simp_all

lemma contiguous_no_delta: "\<not> list_ex is_delta es \<Longrightarrow> deltas_contiguous run over es"
  by (induction run over es rule: deltas_contiguous.induct) simp_all

lemma contiguous_map_delta:
  "i \<notin> set over \<Longrightarrow> run = None \<or> run = Some i \<Longrightarrow> \<not> list_ex is_delta es
     \<Longrightarrow> deltas_contiguous run over (map (ContentBlockDelta i) ds @ es)"
  by (induction ds arbitrary: run) (auto simp: contiguous_no_delta)

lemma stop_follows_map_delta:
  "i \<notin> set stopped \<Longrightarrow> stop_follows_deltas stopped (map (ContentBlockDelta i) ds @ es)
     = stop_follows_deltas stopped es"
  by (induction ds) simp_all

lemma stop_precedes_map_delta:
  "stop_precedes_later_start opn (map (ContentBlockDelta i) ds @ es)
     = stop_precedes_later_start opn es"
  by (induction ds) simp_all

lemma no_end_map_delta: "\<not> list_ex is_message_end (map (ContentBlockDelta i) ds)"
  by (induction ds) simp_all

lemma well_ordered_one_text_block:
  "well_ordered (MessageStart msgId model # ContentBlockStart 0 StartText
     # map (ContentBlockDelta 0) ds @ [ContentBlockStop 0, MessageDelta r n, MessageStop])"
proof -
  let ?tail = "[ContentBlockStop 0, MessageDelta r n, MessageStop]"
  let ?E = "MessageStart msgId model # ContentBlockStart 0 StartText
     # map (ContentBlockDelta 0) ds @ ?tail"
  have 1: "counts_match ?E" by (simp add: counts_match_def)
  have 2: "indices_increase ?E" by (simp add: indices_increase_def)
  have 3: "deltas_follow_start [] ?E" by (simp add: follow_map_delta)
  have 4: "deltas_contiguous None [] ?E"
    using contiguous_map_delta [of 0 "[]" None ?tail ds] by simp
  have 5: "stop_follows_deltas [] ?E" by (simp add: stop_follows_map_delta)
  have 6: "stop_precedes_later_start [] ?E" by (simp add: stop_precedes_map_delta)
  have "?E = (MessageStart msgId model # ContentBlockStart 0 StartText
     # map (ContentBlockDelta 0) ds @ [ContentBlockStop 0]) @ [MessageDelta r n, MessageStop]"
    by simp
  moreover have "\<not> list_ex is_message_end (MessageStart msgId model # ContentBlockStart 0 StartText
     # map (ContentBlockDelta 0) ds @ [ContentBlockStop 0])"
    using no_end_map_delta [of 0 ds] by simp
  ultimately have 7: "message_end_last ?E"
    using message_end_last_snoc by metis
  show ?thesis unfolding well_ordered_def using 1 2 3 4 5 6 7 by blast
qed

lemma well_ordered_text_only:
  assumes "\<not> list_ex has_tool_calls lines" and "onLines lines initial_state = (s, out)"
  shows "well_ordered (MessageStart msgId model # out @ closing s @ [MessageDelta r n, MessageStop])"
proof -
  have "text_only_shape [] initial_state"
    by (simp add: text_only_shape_def initial_state_def)
  then have sh: "text_only_shape out s"
    using onLines_text_only [OF assms(1) _ assms(2), of "[]"] by simp
  show ?thesis
  proof (cases "textBlockStarted s")
    case True
    then obtain ds where "out = ContentBlockStart 0 StartText # map (ContentBlockDelta 0) ds"
      using sh by (auto simp: text_only_shape_def)
    moreover have "closing s = [ContentBlockStop 0]"
      using sh True by (simp add: text_only_shape_def closing_def)
    ultimately show ?thesis using well_ordered_one_text_block [of msgId model ds r n] by simp
  next
    case False
    then have "out = []" "closing s = [ContentBlockStart 0 StartText, ContentBlockStop 0]"
      using sh by (simp_all add: text_only_shape_def closing_def)
    then show ?thesis using well_ordered_one_text_block [of msgId model "[]" r n] by simp
  qed
qed

lemma well_ordered_error_reply:
  "statusCode \<noteq> 200 \<Longrightarrow>
     well_ordered (fst (handleStreaming msgId model (Reply statusCode errorBody lines Ended)))"
  by (simp add: handleStreaming_def well_ordered_writeError)

lemma two_tools_events:
  "fst (handleStreaming ''msg_0'' ''claude-haiku-x'' (Reply 200 [] ex_two_tools Ended))
     = [MessageStart ''msg_0'' ''claude-haiku-x'',
        ContentBlockStart 0 (StartToolUse ''call_a'' ''read''),
        ContentBlockDelta 0 (InputJsonDelta ''{}''),
        ContentBlockStart 1 (StartToolUse ''call_b'' ''list''),
        ContentBlockDelta 1 (InputJsonDelta ''{}''),
        ContentBlockStop 0,
        ContentBlockStop 1,
        MessageDelta (StopReason ''tool_use'') 0,
        MessageStop]"
  by (simp add: ex_two_tools_def ex_tool_delta_def ex_finish_def handleStreaming_def onLine_def
      onFinishReason_def onContent_def onToolCallsField_def closeText_def onToolCall_def
      onUsage_def onEnd_def initial_state_def str_truthy_def str_or_def Let_def)

lemma tool_then_text_events:
  "fst (handleStreaming ''msg_0'' ''claude-haiku-x'' (Reply 200 [] ex_tool_then_text Ended))
     = [MessageStart ''msg_0'' ''claude-haiku-x'',
        ContentBlockStart 0 (StartToolUse ''call_a'' ''read''),
        ContentBlockDelta 0 (InputJsonDelta ''{}''),
        ContentBlockStart 0 StartText,
        ContentBlockDelta 0 (TextDelta ''hi''),
        ContentBlockStop 0,
        MessageDelta (StopReason ''end_turn'') 0,
        MessageStop]"
  by (simp add: ex_tool_then_text_def ex_tool_delta_def ex_text_delta_def ex_finish_def
      handleStreaming_def onLine_def
      onFinishReason_def onContent_def onToolCallsField_def closeText_def onToolCall_def
      onUsage_def onEnd_def initial_state_def str_truthy_def str_or_def Let_def)

text \<open>Text that arrives after a tool call starts a text block at the tool block's index,
  and the end handler writes one stop for the two: the counts differ and the index is
  used twice.\<close>

lemma text_after_tool_unbalanced:
  "\<not> counts_match
       (fst (handleStreaming ''msg_0'' ''claude-haiku-x'' (Reply 200 [] ex_tool_then_text Ended)))
   \<and> \<not> indices_increase
       (fst (handleStreaming ''msg_0'' ''claude-haiku-x'' (Reply 200 [] ex_tool_then_text Ended)))"
  by (simp add: tool_then_text_events counts_match_def indices_increase_def)

text \<open>Two tool calls in one reply: the relay starts the second block before it stops the
  first, because tool blocks are stopped only when the stream ends.\<close>

theorem two_tool_calls_counterexample:
  "fst (handleStreaming ''msg_0'' ''claude-haiku-x'' (Reply 200 [] ex_two_tools Ended))
     = [MessageStart ''msg_0'' ''claude-haiku-x'',
        ContentBlockStart 0 (StartToolUse ''call_a'' ''read''),
        ContentBlockDelta 0 (InputJsonDelta ''{}''),
        ContentBlockStart 1 (StartToolUse ''call_b'' ''list''),
        ContentBlockDelta 1 (InputJsonDelta ''{}''),
        ContentBlockStop 0,
        ContentBlockStop 1,
        MessageDelta (StopReason ''tool_use'') 0,
        MessageStop]
   \<and> \<not> stop_precedes_later_start []
         (fst (handleStreaming ''msg_0'' ''claude-haiku-x'' (Reply 200 [] ex_two_tools Ended)))
   \<and> \<not> well_ordered
         (fst (handleStreaming ''msg_0'' ''claude-haiku-x'' (Reply 200 [] ex_two_tools Ended)))"
  by (simp add: two_tools_events well_ordered_def)

subsection \<open>The round trip of tool invocations\<close>

lemma carried_plain [simp]: "carried_tool_calls [plain_message role content] = []"
  by (simp add: carried_tool_calls_def plain_message_def)

lemma carried_append [simp]:
  "carried_tool_calls (a @ b) = carried_tool_calls a @ carried_tool_calls b"
  by (simp add: carried_tool_calls_def)

lemma carried_toolMessages [simp]: "carried_tool_calls (map (toolMessage rt) trs) = []"
  by (induction trs) (simp_all add: carried_tool_calls_def toolMessage_def)

lemma carried_Nil [simp]: "carried_tool_calls [] = []"
  by (simp add: carried_tool_calls_def)


lemma carried_systemMessage [simp]: "carried_tool_calls (systemMessage system) = []"
  by (auto simp: systemMessage_def split: option.splits system_prompt.splits)





lemma invocation_of_well_formed:
  "b_id tb = Some ident \<Longrightarrow> ident \<noteq> [] \<Longrightarrow> b_name tb = Some name \<Longrightarrow> name \<noteq> []
     \<Longrightarrow> b_input tb = Some (JObj kvs) \<Longrightarrow> invocation_of tb = ToolUse ident name (JObj kvs)"
  by (simp add: invocation_of_def str_or_def json_or_def)



lemma distinct_letters: "distinct (map fst letters)"
  by (simp add: letters_def)

lemma lower_char_eq:
  assumes "p \<notin> fst ` set letters"
  shows "(lower_char c = p) = same_letter c p"
proof (cases "map_of letters c")
  case None
  then have "c \<notin> fst ` set letters" by (simp add: map_of_eq_None_iff)
  then have "(c, p) \<notin> set letters" by force
  with None show ?thesis by (simp add: lower_char_def same_letter_def)
next
  case (Some l)
  then have m: "(c, l) \<in> set letters" by (rule map_of_SomeD)
  then have "c \<in> fst ` set letters" by force
  with assms have ne: "c \<noteq> p" by auto
  have "((c, p) \<in> set letters) = (l = p)"
  proof
    assume "(c, p) \<in> set letters"
    then have "map_of letters c = Some p" using distinct_letters by (rule_tac map_of_is_SomeI)
    with Some show "l = p" by simp
  next
    assume "l = p" with m show "(c, p) \<in> set letters" by simp
  qed
  with Some ne show ?thesis by (simp add: lower_char_def same_letter_def)
qed

lemma startsWith_lower:
  "set p \<inter> fst ` set letters = {} \<Longrightarrow> startsWith (map lower_char s) p = starts_ci s p"
proof (induction s p rule: starts_ci.induct)
  case (3 c s p ps)
  then have "p \<notin> fst ` set letters" and "set ps \<inter> fst ` set letters = {}" by auto
  with 3 show ?case by (simp add: lower_char_eq)
qed simp_all

lemma str_includes_lower:
  "set p \<inter> fst ` set letters = {} \<Longrightarrow> str_includes (map lower_char s) p = contains_ci s p"
proof (induction s)
  case Nil
  then show ?case by (cases p) simp_all
next
  case (Cons c s)
  from Cons.prems have "startsWith (map lower_char (c # s)) p = starts_ci (c # s) p"
    by (rule startsWith_lower)
  with Cons show ?case by (cases p) simp_all
qed

lemma includes_opus:
  "lowers_ascii rt \<Longrightarrow> is_ascii model \<Longrightarrow>
     str_includes (toLowerCase rt model) ''opus'' = contains_ci model ''opus''"
  by (simp add: lowers_ascii_def str_includes_lower letters_def)

lemma includes_haiku:
  "lowers_ascii rt \<Longrightarrow> is_ascii model \<Longrightarrow>
     str_includes (toLowerCase rt model) ''haiku'' = contains_ci model ''haiku''"
  by (simp add: lowers_ascii_def str_includes_lower letters_def)

lemma ex_toLowerCase_ascii: "is_ascii s \<Longrightarrow> ex_toLowerCase s = map lower_char s"
  by (induction s rule: ex_toLowerCase.induct) (auto simp: is_ascii_def kelvin_def)

lemma ex_runtime_lowers_ascii: "lowers_ascii ex_runtime"
  by (simp add: lowers_ascii_def ex_runtime_def ex_toLowerCase_ascii)

text \<open>A name with the Kelvin sign for the letter K: the runtime lowers the sign to k, and
  the name selects the haiku tier.\<close>

lemma kelvin_sign_haiku:
  "getDeployment ex_runtime (''claude-HAI'' @ kelvin @ ''U-x'') ex_three_tiers = ''gpt-4o-mini''"
  by (simp add: getDeployment_def ex_runtime_def ex_three_tiers_def ex_tiered_def
      str_truthy_def str_or_def kelvin_def lower_char_def letters_def)

lemma getDeployment_cases:
  "\<not> str_truthy (router config) \<Longrightarrow>
     getDeployment rt model config =
       (if str_includes (toLowerCase rt model) ''opus''
        then (case opus (deployments config) of
                None \<Rightarrow> ''gpt-4o'' | Some d \<Rightarrow> if d = [] then ''gpt-4o'' else d)
        else if str_includes (toLowerCase rt model) ''haiku''
        then (case haiku (deployments config) of
                None \<Rightarrow> ''gpt-4o-mini'' | Some d \<Rightarrow> if d = [] then ''gpt-4o-mini'' else d)
        else (case sonnet (deployments config) of
                None \<Rightarrow> ''gpt-4o'' | Some d \<Rightarrow> if d = [] then ''gpt-4o'' else d))"
  by (simp add: getDeployment_def str_truthy_def str_or_def Let_def)

text \<open>\<^bold>\<open>C7.\<close> For every requested model name, a configured router deployment is the
  deployment for all models. Without a router, a name whose lower-case form, as the runtime
  gives it, contains \<^verbatim>\<open>opus\<close> selects the opus tier, one that contains
  \<^verbatim>\<open>haiku\<close> (and not \<^verbatim>\<open>opus\<close>, which is tested first) selects the
  haiku tier, and every other name, \<^verbatim>\<open>sonnet\<close> included, selects the sonnet tier;
  a tier that is not configured (absent or empty) gives \<^verbatim>\<open>gpt-4o\<close>,
  \<^verbatim>\<open>gpt-4o-mini\<close> and \<^verbatim>\<open>gpt-4o\<close> respectively. For a name of ASCII
  characters the tests are those of the name itself, the case of its letters disregarded.\<close>

theorem getDeployment_tiers:
  "(\<forall>r. router config = Some r \<and> r \<noteq> [] \<longrightarrow> getDeployment rt model config = r)
   \<and> (\<not> str_truthy (router config) \<longrightarrow>
        (str_includes (toLowerCase rt model) ''opus'' \<longrightarrow>
           getDeployment rt model config =
             (case opus (deployments config) of
                None \<Rightarrow> ''gpt-4o'' | Some d \<Rightarrow> if d = [] then ''gpt-4o'' else d))
      \<and> (\<not> str_includes (toLowerCase rt model) ''opus''
           \<and> str_includes (toLowerCase rt model) ''haiku'' \<longrightarrow>
           getDeployment rt model config =
             (case haiku (deployments config) of
                None \<Rightarrow> ''gpt-4o-mini'' | Some d \<Rightarrow> if d = [] then ''gpt-4o-mini'' else d))
      \<and> (\<not> str_includes (toLowerCase rt model) ''opus''
           \<and> \<not> str_includes (toLowerCase rt model) ''haiku'' \<longrightarrow>
           getDeployment rt model config =
             (case sonnet (deployments config) of
                None \<Rightarrow> ''gpt-4o'' | Some d \<Rightarrow> if d = [] then ''gpt-4o'' else d)))
   \<and> (\<not> str_truthy (router config) \<and> lowers_ascii rt \<and> is_ascii model \<longrightarrow>
        (contains_ci model ''opus'' \<longrightarrow>
           getDeployment rt model config =
             (case opus (deployments config) of
                None \<Rightarrow> ''gpt-4o'' | Some d \<Rightarrow> if d = [] then ''gpt-4o'' else d))
      \<and> (\<not> contains_ci model ''opus'' \<and> contains_ci model ''haiku'' \<longrightarrow>
           getDeployment rt model config =
             (case haiku (deployments config) of
                None \<Rightarrow> ''gpt-4o-mini'' | Some d \<Rightarrow> if d = [] then ''gpt-4o-mini'' else d))
      \<and> (\<not> contains_ci model ''opus'' \<and> \<not> contains_ci model ''haiku'' \<longrightarrow>
           getDeployment rt model config =
             (case sonnet (deployments config) of
                None \<Rightarrow> ''gpt-4o'' | Some d \<Rightarrow> if d = [] then ''gpt-4o'' else d)))"
proof (intro conjI)
  show "\<forall>r. router config = Some r \<and> r \<noteq> [] \<longrightarrow> getDeployment rt model config = r"
    by (simp add: getDeployment_def str_truthy_def)
next
  show "\<not> str_truthy (router config) \<longrightarrow>
        (str_includes (toLowerCase rt model) ''opus'' \<longrightarrow>
           getDeployment rt model config =
             (case opus (deployments config) of
                None \<Rightarrow> ''gpt-4o'' | Some d \<Rightarrow> if d = [] then ''gpt-4o'' else d))
      \<and> (\<not> str_includes (toLowerCase rt model) ''opus''
           \<and> str_includes (toLowerCase rt model) ''haiku'' \<longrightarrow>
           getDeployment rt model config =
             (case haiku (deployments config) of
                None \<Rightarrow> ''gpt-4o-mini'' | Some d \<Rightarrow> if d = [] then ''gpt-4o-mini'' else d))
      \<and> (\<not> str_includes (toLowerCase rt model) ''opus''
           \<and> \<not> str_includes (toLowerCase rt model) ''haiku'' \<longrightarrow>
           getDeployment rt model config =
             (case sonnet (deployments config) of
                None \<Rightarrow> ''gpt-4o'' | Some d \<Rightarrow> if d = [] then ''gpt-4o'' else d))"
    by (simp add: getDeployment_cases)
next
  show "\<not> str_truthy (router config) \<and> lowers_ascii rt \<and> is_ascii model \<longrightarrow>
        (contains_ci model ''opus'' \<longrightarrow>
           getDeployment rt model config =
             (case opus (deployments config) of
                None \<Rightarrow> ''gpt-4o'' | Some d \<Rightarrow> if d = [] then ''gpt-4o'' else d))
      \<and> (\<not> contains_ci model ''opus'' \<and> contains_ci model ''haiku'' \<longrightarrow>
           getDeployment rt model config =
             (case haiku (deployments config) of
                None \<Rightarrow> ''gpt-4o-mini'' | Some d \<Rightarrow> if d = [] then ''gpt-4o-mini'' else d))
      \<and> (\<not> contains_ci model ''opus'' \<and> \<not> contains_ci model ''haiku'' \<longrightarrow>
           getDeployment rt model config =
             (case sonnet (deployments config) of
                None \<Rightarrow> ''gpt-4o'' | Some d \<Rightarrow> if d = [] then ''gpt-4o'' else d))"
    by (simp add: getDeployment_cases includes_opus includes_haiku)
qed

theorem getDeployment_tiers_witness:
  "\<not> str_truthy (router ex_three_tiers)
   \<and> lowers_ascii ex_runtime
   \<and> is_ascii ''Claude-OPUS-4'' \<and> contains_ci ''Claude-OPUS-4'' ''opus''
   \<and> getDeployment ex_runtime ''Claude-OPUS-4'' ex_three_tiers = ''gpt-5''
   \<and> is_ascii ''Claude-Haiku-X'' \<and> \<not> contains_ci ''Claude-Haiku-X'' ''opus''
   \<and> contains_ci ''Claude-Haiku-X'' ''haiku''
   \<and> getDeployment ex_runtime ''Claude-Haiku-X'' ex_three_tiers = ''gpt-4o-mini''
   \<and> is_ascii ''claude-SONNET-4'' \<and> \<not> contains_ci ''claude-SONNET-4'' ''opus''
   \<and> \<not> contains_ci ''claude-SONNET-4'' ''haiku''
   \<and> getDeployment ex_runtime ''claude-SONNET-4'' ex_three_tiers = ''gpt-4.1''
   \<and> getDeployment ex_runtime ''claude-haiku-x'' ex_tiered = ''gpt-4o-mini''
   \<and> getDeployment ex_runtime ''claude-opus-4'' ex_tiered = ''gpt-4o''
   \<and> router ex_router = Some ''model-router''
   \<and> getDeployment ex_runtime ''Claude-OPUS-4'' ex_router = ''model-router''"
  using getDeployment_tiers [of ex_three_tiers ex_runtime "''Claude-OPUS-4''"]
    getDeployment_tiers [of ex_three_tiers ex_runtime "''Claude-Haiku-X''"]
    getDeployment_tiers [of ex_three_tiers ex_runtime "''claude-SONNET-4''"]
    getDeployment_tiers [of ex_tiered ex_runtime "''claude-haiku-x''"]
    getDeployment_tiers [of ex_tiered ex_runtime "''claude-opus-4''"]
    getDeployment_tiers [of ex_router ex_runtime "''Claude-OPUS-4''"]
    ex_runtime_lowers_ascii
  by (simp add: ex_three_tiers_def ex_tiered_def ex_router_def str_truthy_def is_ascii_def
      same_letter_def letters_def ex_runtime_def lower_char_def)

subsection \<open>The reverse mapping of the finish reason\<close>

lemma lookupStopReason_own:
  "lookupStopReason ''stop'' = StopReason ''end_turn''"
  "lookupStopReason ''length'' = StopReason ''max_tokens''"
  "lookupStopReason ''tool_calls'' = StopReason ''tool_use''"
  "lookupStopReason ''content_filter'' = StopReason ''end_turn''"
  by (simp_all add: lookupStopReason_def stopReasonMap_def)

lemma lookupStopReason_other:
  "f \<notin> set Object_prototype \<Longrightarrow>
     f \<notin> {''stop'', ''length'', ''tool_calls'', ''content_filter''} \<Longrightarrow>
     lookupStopReason f = StopReason ''end_turn''"
  by (simp add: lookupStopReason_def stopReasonMap_def)

lemma lookupStopReason_truthy: "lookupStopReason f \<noteq> StopReason []"
proof (cases "map_of stopReasonMap f")
  case None
  then show ?thesis by (simp add: lookupStopReason_def)
next
  case (Some r)
  then show ?thesis by (simp add: lookupStopReason_def)
qed

lemma cr_stop_reason_truthy:
  "cr_stop_reason (convertResponse rt fresh openaiRes model) \<noteq> StopReason []"
proof (cases "p_choices openaiRes")
  case None
  then show ?thesis by (simp add: convertResponse_def Let_def)
next
  case (Some cs)
  then show ?thesis
    by (cases cs) (simp_all add: convertResponse_def Let_def lookupStopReason_truthy)
qed

text \<open>For a finish reason that names no member of \<^verbatim>\<open>Object.prototype\<close> the stop
  reason is that of the table, \<^verbatim>\<open>end_turn\<close> for any other or absent value.\<close>

lemma stop_reason_of_table:
  assumes "p_choices openaiRes = Some (choice # others)"
    and "\<forall>f. ch_finish_reason choice = Some f \<longrightarrow> f \<notin> set Object_prototype"
  shows "cr_stop_reason (convertResponse rt fresh openaiRes model) =
           StopReason
             (if ch_finish_reason choice = Some ''stop'' then ''end_turn''
              else if ch_finish_reason choice = Some ''length'' then ''max_tokens''
              else if ch_finish_reason choice = Some ''tool_calls'' then ''tool_use''
              else if ch_finish_reason choice = Some ''content_filter'' then ''end_turn''
              else ''end_turn'')"
proof (cases "ch_finish_reason choice")
  case None
  with assms(1) show ?thesis
    by (simp add: convertResponse_def Let_def str_or_def lookupStopReason_own)
next
  case (Some f)
  with assms(2) have np: "f \<notin> set Object_prototype" by simp
  show ?thesis
  proof (cases "f = []")
    case True
    with Some assms(1) show ?thesis
      by (simp add: convertResponse_def Let_def str_or_def lookupStopReason_own)
  next
    case False
    then have l: "cr_stop_reason (convertResponse rt fresh openaiRes model) = lookupStopReason f"
      using Some assms(1) by (simp add: convertResponse_def Let_def str_or_def)
    consider "f = ''stop''" | "f = ''length''" | "f = ''tool_calls''"
      | "f = ''content_filter''"
      | "f \<notin> {''stop'', ''length'', ''tool_calls'', ''content_filter''}"
      by blast
    then show ?thesis
    proof cases
      case 1
      then show ?thesis using l Some by (simp add: lookupStopReason_own)
    next
      case 2
      then show ?thesis using l Some by (simp add: lookupStopReason_own)
    next
      case 3
      then show ?thesis using l Some by (simp add: lookupStopReason_own)
    next
      case 4
      then show ?thesis using l Some by (simp add: lookupStopReason_own)
    next
      case 5
      from np 5 have "lookupStopReason f = StopReason ''end_turn''"
        by (rule lookupStopReason_other)
      moreover from 5 have "ch_finish_reason choice \<noteq> Some ''stop''"
        "ch_finish_reason choice \<noteq> Some ''length''"
        "ch_finish_reason choice \<noteq> Some ''tool_calls''"
        "ch_finish_reason choice \<noteq> Some ''content_filter''"
        using Some by auto
      ultimately show ?thesis using l by simp
    qed
  qed
qed

text \<open>\<^bold>\<open>C9.\<close> A backend reply with a \<^verbatim>\<open>choices\<close> array whose first choice has the
  finish reason \<^verbatim>\<open>constructor\<close>: the table has no such key, and the client's stop
  reason ought to be \<^verbatim>\<open>end_turn\<close>. The lookup in the object literal finds the member
  \<^verbatim>\<open>constructor\<close> that every object inherits, a function, and the stop reason of the
  response is that function, not \<^verbatim>\<open>end_turn\<close> and not a string; the synthesized
  stream carries it in its \<^verbatim>\<open>message_delta\<close>. The native relay, which compares the
  finish reason with the keys one by one, gives \<^verbatim>\<open>end_turn\<close> for the same finish
  reason.\<close>

theorem stop_reason_inherited_member:
  "p_choices (ex_reply_finish ''constructor'')
     = Some [\<lparr>ch_message = Some \<lparr>rm_content = Some ''hello'', rm_tool_calls = None\<rparr>,
              ch_finish_reason = Some ''constructor''\<rparr>]
   \<and> cr_stop_reason
       (convertResponse ex_runtime ''msg_0'' (ex_reply_finish ''constructor'') ''claude-haiku-x'')
       = PrototypeMember ''constructor''
   \<and> cr_stop_reason
       (convertResponse ex_runtime ''msg_0'' (ex_reply_finish ''constructor'') ''claude-haiku-x'')
       \<noteq> StopReason ''end_turn''
   \<and> cr_stop_reason
       (convertResponse ex_runtime ''msg_0'' (ex_reply_finish ''length'') ''claude-haiku-x'')
       = StopReason ''max_tokens''
   \<and> finishReason (fst (onLines [ex_finish ''constructor''] initial_state)) = ''end_turn''"
  by (simp add: ex_reply_finish_def ex_reply_stop_def convertResponse_def Let_def str_or_def
      lookupStopReason_def stopReasonMap_def Object_prototype_def
      ex_finish_def onLine_def onFinishReason_def onContent_def onToolCallsField_def
      onUsage_def initial_state_def str_truthy_def)

subsection \<open>Error replies\<close>

text \<open>A reply whose status is not 200 and that fails before its end: the handler has
  written \<^verbatim>\<open>message_start\<close> only, and no callback ends the client's response.\<close>

lemma error_reply_cut:
  "statusCode \<noteq> 200 \<Longrightarrow>
     handleStreaming msgId model (Reply statusCode reply lines (Failed err))
       = ([MessageStart msgId model], Pending)"
  by (simp add: handleStreaming_def)

text \<open>\<^bold>\<open>C8.\<close> For every backend reply whose status is neither 200 nor 404 (and is a status
  at all: \<^verbatim>\<open>requestJson\<close> writes 0 for a reply without one), reached by the
  dispatcher after the candidates before it were passed over: the non-streaming path answers
  the client with that status code and that body unchanged; the synthesized streaming path,
  and the native streaming path once the reply has ended, write the error body as one text
  block at index 0 (start, one text delta, stop), then \<^verbatim>\<open>message_delta\<close> and
  \<^verbatim>\<open>message_stop\<close>, and the handler's promise resolves.\<close>

theorem error_status_passthrough:
  assumes "\<forall>x \<in> set pre. passed_over net payload x"
    and "net c (adaptPayload c payload) = Response statusCode reply"
    and "statusCode \<noteq> 200" and "statusCode \<noteq> 404" and "statusCode \<noteq> 0"
  shows "handleNonStreaming rt decode net fresh (pre @ c # post) payload model
           = \<lparr>status = statusCode, body = RawBody reply\<rparr>
         \<and> handleStreamingFromNonStreaming rt decode net msgId (pre @ c # post) payload model
           = [MessageStart msgId model,
              ContentBlockStart 0 StartText,
              ContentBlockDelta 0 (TextDelta (''Error from Azure: '' @ reply)),
              ContentBlockStop 0,
              MessageDelta (StopReason ''end_turn'') 0,
              MessageStop]
         \<and> handleStreaming msgId model (Reply statusCode reply lines Ended)
           = ([MessageStart msgId model,
               ContentBlockStart 0 StartText,
               ContentBlockDelta 0 (TextDelta (''Error from Azure: '' @ reply)),
               ContentBlockStop 0,
               MessageDelta (StopReason ''end_turn'') 0,
               MessageStop], Resolved)"
proof -
  have "\<not> passed_over net payload c"
    using assms(2,4) by (simp add: passed_over_def)
  then have "requestWithFallback net (pre @ c # post) payload
      = (pre @ [c], Inr (statusCode, reply, c))"
    using requestWithFallback_reaches [OF assms(1), of c post] assms(2)
    by (simp add: settled_by_def)
  then show ?thesis
    using assms(3,5)
    by (simp add: handleNonStreaming_def handleStreamingFromNonStreaming_def
        handleStreaming_def writeError_def)
qed

theorem error_status_passthrough_witness:
  "ex_busy ex_c1 (adaptPayload ex_c1 ex_payload) = Response 429 ''rate limited''
   \<and> handleNonStreaming ex_runtime (\<lambda>b. Inl ''bad'') ex_busy ''msg_0'' ([] @ ex_c1 # [ex_c2])
        ex_payload ''claude-haiku-x''
       = \<lparr>status = 429, body = RawBody ''rate limited''\<rparr>
   \<and> handleStreamingFromNonStreaming ex_runtime (\<lambda>b. Inl ''bad'') ex_busy ''msg_0''
        ([] @ ex_c1 # [ex_c2]) ex_payload ''claude-haiku-x''
       = [MessageStart ''msg_0'' ''claude-haiku-x'',
          ContentBlockStart 0 StartText,
          ContentBlockDelta 0 (TextDelta ''Error from Azure: rate limited''),
          ContentBlockStop 0,
          MessageDelta (StopReason ''end_turn'') 0,
          MessageStop]
   \<and> handleStreaming ''msg_0'' ''claude-haiku-x'' (Reply 429 ''rate limited'' [] Ended)
       = ([MessageStart ''msg_0'' ''claude-haiku-x'',
           ContentBlockStart 0 StartText,
           ContentBlockDelta 0 (TextDelta ''Error from Azure: rate limited''),
           ContentBlockStop 0,
           MessageDelta (StopReason ''end_turn'') 0,
           MessageStop], Resolved)"
proof -
  have a: "\<forall>x \<in> set []. passed_over ex_busy ex_payload x"
    by simp
  have n: "ex_busy ex_c1 (adaptPayload ex_c1 ex_payload) = Response 429 ''rate limited''"
    by (simp add: ex_busy_def)
  show ?thesis
    using error_status_passthrough [OF a n, of ex_runtime "\<lambda>b. Inl ''bad''" "''msg_0''"
        "[ex_c2]" "''claude-haiku-x''" "''msg_0''" "[]"] n
    by simp
qed

subsection \<open>The alternate shape is not streamed\<close>

lemma contentEvents_cycles:
  "contentEvents rt k bs = concat (map (block_cycle rt) (enumerate k bs))"
  by (induction bs arbitrary: k) (simp_all add: blockEvents_def block_cycle_def)

lemma synthesized_of_reply:
  assumes "snd (requestWithFallback net optionsList openaiReq) = Inr (200, reply, opts)"
    and "decode reply = Inr data"
  shows "handleStreamingFromNonStreaming rt decode net msgId optionsList openaiReq model
           = synthesized_stream rt msgId model (convertResponse rt msgId data model)"
proof -
  have "cr_stop_reason (convertResponse rt msgId data model) \<noteq> StopReason []"
    by (rule cr_stop_reason_truthy)
  then have "(case cr_stop_reason (convertResponse rt msgId data model) of
                StopReason r \<Rightarrow> StopReason (str_or (Some r) ''end_turn'')
              | member \<Rightarrow> member) = cr_stop_reason (convertResponse rt msgId data model)"
    by (cases "cr_stop_reason (convertResponse rt msgId data model)") (simp_all add: str_or_def)
  then show ?thesis
    using assms
    by (simp add: handleStreamingFromNonStreaming_def synthesized_stream_def Let_def
        contentEvents_cycles)
qed

lemma synthesized_of_error:
  "snd (requestWithFallback net optionsList openaiReq) = Inr (statusCode, reply, opts) \<Longrightarrow>
     statusCode \<noteq> 200 \<Longrightarrow>
     handleStreamingFromNonStreaming rt decode net msgId optionsList openaiReq model
       = error_stream msgId model reply"
  "snd (requestWithFallback net optionsList openaiReq) = Inr (200, reply, opts) \<Longrightarrow>
     decode reply = Inl err \<Longrightarrow>
     handleStreamingFromNonStreaming rt decode net msgId optionsList openaiReq model
       = error_stream msgId model err"
  "snd (requestWithFallback net optionsList openaiReq) = Inl err \<Longrightarrow>
     handleStreamingFromNonStreaming rt decode net msgId optionsList openaiReq model
       = error_stream msgId model err"
  by (simp_all add: handleStreamingFromNonStreaming_def error_stream_def writeError_def)

text \<open>\<^bold>\<open>C10.\<close> For every request served through the alternate (Responses) shape, the
  outbound payload has \<^verbatim>\<open>stream\<close> set to false, also after the dispatcher adapts it for
  a candidate, even when the client asked for a stream. The client's stream then comes from
  the dispatcher's one result, whatever a streaming backend would answer: for a reply of
  status 200 that decodes, it is \<^verbatim>\<open>message_start\<close>, one cycle of start, delta and
  stop for each content block of the translated reply in order, \<^verbatim>\<open>message_delta\<close>
  with the translated stop reason and output tokens, and \<^verbatim>\<open>message_stop\<close>; for a
  reply of another status, a reply that does not decode, or a failed request, it is the
  stream of the error message.\<close>

theorem responses_shape_not_streamed:
  "useResponsesAPI_for azure claudeReq \<longrightarrow>
     q_stream (outboundRequest rt azure claudeReq) = False
     \<and> (\<forall>opts. q_stream (adaptPayload opts (outboundRequest rt azure claudeReq)) = False)
     \<and> (r_stream claudeReq = Some True \<longrightarrow>
          (\<forall>stream. serveMessages rt decode net stream msgId azure claudeReq
             = EventStream
                 (case snd (requestWithFallback net (azureUrls rt azure claudeReq)
                              (outboundRequest rt azure claudeReq)) of
                    Inl err \<Rightarrow> error_stream msgId (str_or (r_model claudeReq) []) err
                  | Inr (statusCode, reply, opts) \<Rightarrow>
                      if statusCode \<noteq> 200
                      then error_stream msgId (str_or (r_model claudeReq) []) reply
                      else (case decode reply of
                              Inl err \<Rightarrow> error_stream msgId (str_or (r_model claudeReq) []) err
                            | Inr data \<Rightarrow>
                                synthesized_stream rt msgId (str_or (r_model claudeReq) [])
                                  (convertResponse rt msgId data
                                     (str_or (r_model claudeReq) []))))
                 Resolved))"
proof (intro impI conjI allI)
  assume u: "useResponsesAPI_for azure claudeReq"
  show "q_stream (outboundRequest rt azure claudeReq) = False"
    using u by (simp add: outboundRequest_def Let_def)
  show "q_stream (adaptPayload opts (outboundRequest rt azure claudeReq)) = False" for opts
    using u by (simp add: outboundRequest_def Let_def adaptPayload_stream)
  assume w: "r_stream claudeReq = Some True"
  let ?urls = "azureUrls rt azure claudeReq"
  let ?req = "outboundRequest rt azure claudeReq"
  let ?model = "str_or (r_model claudeReq) []"
  fix stream
  have s: "serveMessages rt decode net stream msgId azure claudeReq
      = EventStream (handleStreamingFromNonStreaming rt decode net msgId ?urls ?req ?model)
          Resolved"
    using u w by (simp add: serveMessages_def Let_def)
  show "serveMessages rt decode net stream msgId azure claudeReq
      = EventStream
          (case snd (requestWithFallback net ?urls ?req) of
             Inl err \<Rightarrow> error_stream msgId ?model err
           | Inr (statusCode, reply, opts) \<Rightarrow>
               if statusCode \<noteq> 200 then error_stream msgId ?model reply
               else (case decode reply of
                       Inl err \<Rightarrow> error_stream msgId ?model err
                     | Inr data \<Rightarrow>
                         synthesized_stream rt msgId ?model
                           (convertResponse rt msgId data ?model)))
          Resolved"
  proof (cases "snd (requestWithFallback net ?urls ?req)")
    case (Inl err)
    then show ?thesis using s by (simp add: synthesized_of_error)
  next
    case (Inr r)
    obtain statusCode reply opts where r: "r = (statusCode, reply, opts)"
      by (cases r)
    show ?thesis
    proof (cases "statusCode = 200")
      case False
      then show ?thesis using s Inr r synthesized_of_error(1) [of net ?urls ?req statusCode reply opts]
        by simp
    next
      case True
      show ?thesis
      proof (cases "decode reply")
        case (Inl err)
        then show ?thesis
          using s Inr r True synthesized_of_error(2) [of net ?urls ?req reply opts decode err]
          by simp
      next
        case (Inr data)
        then show ?thesis
          using s \<open>snd (requestWithFallback net ?urls ?req) = Inr r\<close> r True
            synthesized_of_reply [of net ?urls ?req reply opts decode data]
          by simp
      qed
    qed
  qed
qed

theorem responses_shape_not_streamed_witness:
  "useResponsesAPI_for ex_router ex_stream_request
   \<and> r_stream ex_stream_request = Some True
   \<and> q_stream (outboundRequest ex_runtime ex_router ex_stream_request) = False
   \<and> q_stream (buildOpenAIRequest ex_runtime ex_stream_request ex_router True) = True
   \<and> snd (requestWithFallback ex_ok (azureUrls ex_runtime ex_router ex_stream_request)
            (outboundRequest ex_runtime ex_router ex_stream_request))
       = Inr (200, ex_body, ex_c1)
   \<and> serveMessages ex_runtime ex_decode ex_ok (\<lambda>opts payload. RequestError ''unused'')
        ''msg_0'' ex_router ex_stream_request
       = EventStream
           [MessageStart ''msg_0'' ''claude-haiku-x'',
            ContentBlockStart 0 StartText,
            ContentBlockDelta 0 (TextDelta ''hello''),
            ContentBlockStop 0,
            MessageDelta (StopReason ''end_turn'') 0,
            MessageStop]
           Resolved"
proof -
  have u: "useResponsesAPI_for ex_router ex_stream_request"
    by (simp add: useResponsesAPI_for_def shouldUseResponsesAPI_def ex_router_def
        str_truthy_def hasToolUsage_def messagesOf_def ex_stream_request_def ex_request_def)
  have b: "q_stream (buildOpenAIRequest ex_runtime ex_stream_request ex_router True) = True"
    by (simp add: buildOpenAIRequest_def Let_def ex_stream_request_def ex_request_def)
  have s: "r_stream ex_stream_request = Some True"
    by (simp add: ex_stream_request_def)
  have m: "str_or (r_model ex_stream_request) [] = ''claude-haiku-x''"
    by (simp add: ex_stream_request_def ex_request_def str_or_def)
  have urls: "\<exists>cs. azureUrls ex_runtime ex_router ex_stream_request = ex_c1 # cs"
    by (simp add: azureUrls_def Let_def buildResponsesUrls_def getDeployment_def
        useResponsesAPI_for_def shouldUseResponsesAPI_def hasToolUsage_def messagesOf_def
        ex_stream_request_def ex_request_def
        ex_router_def ex_tiered_def str_truthy_def ex_c1_def)
  then obtain cs where cs: "azureUrls ex_runtime ex_router ex_stream_request = ex_c1 # cs"
    by blast
  have d: "snd (requestWithFallback ex_ok (azureUrls ex_runtime ex_router ex_stream_request)
            (outboundRequest ex_runtime ex_router ex_stream_request))
       = Inr (200, ex_body, ex_c1)"
    by (simp add: cs requestWithFallback_def ex_ok_def)
  have c: "synthesized_stream ex_runtime ''msg_0'' ''claude-haiku-x''
             (convertResponse ex_runtime ''msg_0'' ex_reply_stop ''claude-haiku-x'')
       = [MessageStart ''msg_0'' ''claude-haiku-x'',
            ContentBlockStart 0 StartText,
            ContentBlockDelta 0 (TextDelta ''hello''),
            ContentBlockStop 0,
            MessageDelta (StopReason ''end_turn'') 0,
            MessageStop]"
    by (simp add: synthesized_stream_def convertResponse_def ex_reply_stop_def Let_def
        str_or_def str_truthy_def lookupStopReason_def stopReasonMap_def block_cycle_def
        enumerate_eq_zip num_or_def)
  show ?thesis
    using responses_shape_not_streamed [of ex_router ex_stream_request ex_runtime ex_decode
        ex_ok "''msg_0''"] u b s
    by (simp add: d m c ex_decode_def)
qed

subsection \<open>The native relay: the blocks left open\<close>

text \<open>For every native stream that ends, the events the client gets are
  \<^verbatim>\<open>message_start\<close>, what the loop wrote, the closing events, one \<^verbatim>\<open>message_delta\<close>
  with the mapped stop reason and the final output-token count, and one
  \<^verbatim>\<open>message_stop\<close>, in that order. After the closing events every block is closed but
  for a text block started at the index of a tool block; when the loop started no block the
  closing events are an empty text block at index 0.\<close>

lemma native_stream_end:
  "\<exists>s out.
      onLines lines initial_state = (s, out)
    \<and> handleStreaming msgId model (Reply 200 errorBody lines Ended)
        = (MessageStart msgId model # out @ closing s
             @ [MessageDelta (StopReason (mapped_stop_reason lines)) (final_output_tokens lines),
                MessageStop], Resolved)
    \<and> \<not> list_ex is_message_end (out @ closing s)
    \<and> still_open [] (out @ closing s)
        = (if textBlockStarted s \<and> currentBlockIndex s \<in> set (toolBlocksStarted s)
           then [currentBlockIndex s] else [])
    \<and> (starts out = [] \<longrightarrow> closing s = [ContentBlockStart 0 StartText, ContentBlockStop 0])
    \<and> starts (out @ closing s) \<noteq> []"
proof -
  obtain s out where run: "onLines lines initial_state = (s, out)"
    by (cases "onLines lines initial_state")
  note inv = loop_invariants [OF run]
  have "\<not> list_ex is_message_end (out @ closing s)"
    using inv(2) closing_no_end [of s] by (simp add: block_events_only_def)
  then show ?thesis
    using run handleStreaming_ended [OF run] closing_stops_open [OF inv(6)]
      closing_when_none_started [OF inv(4)] some_block_started [OF inv(4)]
    by blast
qed

text \<open>When no text arrives after a line with tool calls, the stream leaves no block
  open.\<close>

lemma blocks_closed_text_before_tools:
  assumes "text_before_tools lines"
  shows "still_open [] (fst (handleStreaming msgId model (Reply 200 errorBody lines Ended))) = []"
proof -
  obtain s out where run: "onLines lines initial_state = (s, out)"
    by (cases "onLines lines initial_state")
  note inv = loop_invariants [OF run]
  have "still_open [] (out @ closing s) = []"
    using closing_stops_open [OF inv(6)] text_before_tools_final [OF assms run] by auto
  then have "still_open [] (MessageStart msgId model # (out @ closing s)
      @ [MessageDelta (StopReason (mapped_stop_reason lines)) (final_output_tokens lines),
         MessageStop]) = []"
    by (simp add: still_open_append)
  then show ?thesis using handleStreaming_ended [OF run] by simp
qed

text \<open>\<^bold>\<open>C5.\<close> A native stream of a tool call, then text, then the finish reason: at the
  end of the stream every block still open ought to be closed. The relay has started a
  tool block at index 0 and a text block at index 0; the end handler writes one
  \<^verbatim>\<open>content_block_stop\<close> for index 0, then \<^verbatim>\<open>message_delta\<close> and \<^verbatim>\<open>message_stop\<close>, and
  one of the two blocks is left open.\<close>

theorem text_after_tool_left_open:
  "fst (handleStreaming ''msg_0'' ''claude-haiku-x'' (Reply 200 [] ex_tool_then_text Ended))
     = [MessageStart ''msg_0'' ''claude-haiku-x'',
        ContentBlockStart 0 (StartToolUse ''call_a'' ''read''),
        ContentBlockDelta 0 (InputJsonDelta ''{}''),
        ContentBlockStart 0 StartText,
        ContentBlockDelta 0 (TextDelta ''hi''),
        ContentBlockStop 0,
        MessageDelta (StopReason ''end_turn'') 0,
        MessageStop]
   \<and> still_open []
        (fst (handleStreaming ''msg_0'' ''claude-haiku-x'' (Reply 200 [] ex_tool_then_text Ended)))
       = [0]"
  by (simp add: tool_then_text_events)

end
